theory Spec2Isabelle
  imports Complex_Main "HOL-Library.Monad_Syntax"
begin

chapter \<open>Tide corrections for IceBridge and ICESat-2 ATL11 data: a shallow embedding\<close>

text \<open>
  The development embeds the logic of the two drivers
  \<^verbatim>\<open>scripts/compute_tides_icebridge_data.py\<close> and
  \<^verbatim>\<open>scripts/compute_tides_ICESat2_ATL11.py\<close>: argument and file name parsing,
  the format adapters, the masked prediction step and the derivation of the output
  attributes and names. The harmonic-constant readers, the tide prediction routines and
  the leap-second and delta-time tables are functions of other modules; they enter the
  model as parameters.
\<close>

section \<open>Python values\<close>

subsection \<open>Exceptions\<close>

text \<open>
  Every \<^verbatim>\<open>raise\<close> of the drivers is a value. \<open>UnboundLocalError\<close> is what Python
  raises when a local variable is read that no executed branch has assigned;
  \<open>ArgumentError\<close> is the exit of \<^verbatim>\<open>argparse\<close> on an option value outside its
  \<^verbatim>\<open>choices\<close>.
\<close>

datatype py_error =
    IndexError
  | ValueError
  | KeyError
  | AttributeError
  | UnboundLocalError
  | ArgumentError

subsection \<open>Double precision values\<close>

text \<open>
  A \<^verbatim>\<open>numpy.float64\<close> is a finite value, one of the two infinities or NaN. Finite
  values are carried as reals: rounding and the sign of zero are not modelled, and the
  theorems below only use arithmetic where that makes no difference (comparisons, the
  propagation of NaN, operations that are exact on the operands at hand).
\<close>

datatype float64 = Fl real | PInf | NInf | NaN

definition isnan :: "float64 \<Rightarrow> bool" where
  "isnan x = (x = NaN)"

text \<open>The comparisons of IEEE 754: every ordered comparison with NaN is false, and so is \<^verbatim>\<open>==\<close>.\<close>

fun feq :: "float64 \<Rightarrow> float64 \<Rightarrow> bool" where
  "feq NaN _ = False"
| "feq _ NaN = False"
| "feq a b = (a = b)"

definition fne :: "float64 \<Rightarrow> float64 \<Rightarrow> bool" where
  "fne a b = (\<not> feq a b)"

fun flt :: "float64 \<Rightarrow> float64 \<Rightarrow> bool" where
  "flt NaN _ = False"
| "flt _ NaN = False"
| "flt (Fl a) (Fl b) = (a < b)"
| "flt NInf b = (b \<noteq> NInf)"
| "flt a PInf = (a \<noteq> PInf)"
| "flt _ _ = False"

definition fgt :: "float64 \<Rightarrow> float64 \<Rightarrow> bool" where
  "fgt a b = flt b a"

definition fge :: "float64 \<Rightarrow> float64 \<Rightarrow> bool" where
  "fge a b = (flt b a \<or> feq a b)"

fun fneg :: "float64 \<Rightarrow> float64" where
  "fneg (Fl a) = Fl (- a)"
| "fneg PInf = NInf"
| "fneg NInf = PInf"
| "fneg NaN = NaN"

fun fadd :: "float64 \<Rightarrow> float64 \<Rightarrow> float64" where
  "fadd NaN _ = NaN"
| "fadd _ NaN = NaN"
| "fadd (Fl a) (Fl b) = Fl (a + b)"
| "fadd PInf NInf = NaN"
| "fadd NInf PInf = NaN"
| "fadd PInf _ = PInf"
| "fadd NInf _ = NInf"
| "fadd _ b = b"

definition fsub :: "float64 \<Rightarrow> float64 \<Rightarrow> float64" where
  "fsub a b = fadd a (fneg b)"

fun fmul :: "float64 \<Rightarrow> float64 \<Rightarrow> float64" where
  "fmul NaN _ = NaN"
| "fmul _ NaN = NaN"
| "fmul (Fl a) (Fl b) = Fl (a * b)"
| "fmul (Fl a) b = (if a = 0 then NaN else if 0 < a then b else fneg b)"
| "fmul a (Fl b) = (if b = 0 then NaN else if 0 < b then a else fneg a)"
| "fmul PInf b = b"
| "fmul NInf b = fneg b"

text \<open>numpy's true division: a finite value over zero is an infinity, zero over zero is NaN.\<close>

fun fdiv :: "float64 \<Rightarrow> float64 \<Rightarrow> float64" where
  "fdiv NaN _ = NaN"
| "fdiv _ NaN = NaN"
| "fdiv (Fl a) (Fl b) =
     (if b \<noteq> 0 then Fl (a / b) else if a = 0 then NaN else if 0 < a then PInf else NInf)"
| "fdiv (Fl a) _ = Fl 0"
| "fdiv a (Fl b) = (if 0 \<le> b then a else fneg a)"
| "fdiv _ _ = NaN"

fun fsqrt :: "float64 \<Rightarrow> float64" where
  "fsqrt (Fl a) = (if a < 0 then NaN else Fl (sqrt a))"
| "fsqrt PInf = PInf"
| "fsqrt _ = NaN"

text \<open>
  The remainder \<^verbatim>\<open>x % m\<close> of numpy for a finite positive modulus: it takes the sign of
  the modulus; the remainder of an infinity or of NaN is NaN.
\<close>

fun fmod_pos :: "float64 \<Rightarrow> real \<Rightarrow> float64" where
  "fmod_pos (Fl a) m = Fl (a - m * of_int \<lfloor>a / m\<rfloor>)"
| "fmod_pos _ m = NaN"

subsection \<open>Reductions of arrays\<close>

text \<open>
  \<^verbatim>\<open>numpy.min\<close> and \<^verbatim>\<open>numpy.max\<close> of a plain array raise \<^verbatim>\<open>ValueError\<close> on an empty
  array and return NaN as soon as one element is NaN.
\<close>

definition fmin2 :: "float64 \<Rightarrow> float64 \<Rightarrow> float64" where
  "fmin2 a b = (if isnan a \<or> isnan b then NaN else if flt b a then b else a)"

definition fmax2 :: "float64 \<Rightarrow> float64 \<Rightarrow> float64" where
  "fmax2 a b = (if isnan a \<or> isnan b then NaN else if flt a b then b else a)"

fun np_min :: "float64 list \<Rightarrow> py_error + float64" where
  "np_min [] = Inl ValueError"
| "np_min (x # xs) = Inr (foldl fmin2 x xs)"

fun np_max :: "float64 list \<Rightarrow> py_error + float64" where
  "np_max [] = Inl ValueError"
| "np_max (x # xs) = Inr (foldl fmax2 x xs)"

definition count_nonzero :: "bool list \<Rightarrow> nat" where
  "count_nonzero bs = length (filter (\<lambda>b. b) bs)"

subsection \<open>Decimal strings\<close>

definition is_digit :: "char \<Rightarrow> bool" where
  "is_digit c = (c \<in> set ''0123456789'')"

definition digit_val :: "char \<Rightarrow> nat" where
  "digit_val c = of_char c - 48"

definition digits_val :: "string \<Rightarrow> nat" where
  "digits_val s = foldl (\<lambda>a c. 10 * a + digit_val c) 0 s"

text \<open>
  \<^verbatim>\<open>int(s)\<close> on the tokens the drivers pass to it, which a \<^verbatim>\<open>\d+\<close> group has matched or
  a slice has cut: a non-empty string of digits is its decimal value, anything else is
  \<^verbatim>\<open>ValueError\<close>.
\<close>

definition int_of_digits :: "string \<Rightarrow> nat option" where
  "int_of_digits s = (if s \<noteq> [] \<and> list_all is_digit s then Some (digits_val s) else None)"

text \<open>
  \<^verbatim>\<open>numpy.float64(s)\<close> on a decimal literal: an optional sign, digits with an optional
  point (at least one digit in all), an optional exponent. The strings the adapters
  convert are slices of a fixed-point rendering and never leave this grammar but by a
  slice that Python rejects as well (\<^verbatim>\<open>'000nan'\<close>).
\<close>

definition split_sign :: "string \<Rightarrow> bool \<times> string" where
  "split_sign s = (case s of
       [] \<Rightarrow> (False, [])
     | c # cs \<Rightarrow> if c = CHR ''-'' then (True, cs) else if c = CHR ''+'' then (False, cs) else (False, s))"

definition mantissa_of_string :: "string \<Rightarrow> real option" where
  "mantissa_of_string s =
     (let ip = takeWhile is_digit s; r = dropWhile is_digit s in
      case r of
        [] \<Rightarrow> if ip = [] then None else Some (real (digits_val ip))
      | c # fp \<Rightarrow>
          if c = CHR ''.'' \<and> list_all is_digit fp \<and> (ip \<noteq> [] \<or> fp \<noteq> [])
          then Some (real (digits_val ip) + real (digits_val fp) / 10 ^ length fp)
          else None)"

definition exponent_of_string :: "string \<Rightarrow> int option" where
  "exponent_of_string s =
     (let (neg, ds) = split_sign s in
      case int_of_digits ds of
        None \<Rightarrow> None
      | Some e \<Rightarrow> Some (if neg then - int e else int e))"

definition float_of_string :: "string \<Rightarrow> float64 option" where
  "float_of_string s =
     (let (neg, body) = split_sign s;
          m = takeWhile (\<lambda>c. c \<noteq> CHR ''e'' \<and> c \<noteq> CHR ''E'') body;
          r = dropWhile (\<lambda>c. c \<noteq> CHR ''e'' \<and> c \<noteq> CHR ''E'') body;
          ex = (case r of [] \<Rightarrow> Some 0 | _ # es \<Rightarrow> exponent_of_string es)
      in case (mantissa_of_string m, ex) of
           (Some v, Some e) \<Rightarrow> Some (Fl ((if neg then - v else v) * 10 powi e))
         | _ \<Rightarrow> None)"

text \<open>The decimal digits of a natural number, most significant first.\<close>

fun digits_of :: "nat \<Rightarrow> string" where
  "digits_of n =
     (if n < 10 then [''0123456789'' ! n]
      else digits_of (n div 10) @ [''0123456789'' ! (n mod 10)])"

declare digits_of.simps [simp del]

text \<open>
  The fixed-point presentation types of \<^verbatim>\<open>str.format\<close>: \<^verbatim>\<open>'{:010.3f}'\<close> is
  \<open>format_f True 10 3\<close>, \<^verbatim>\<open>'{:05.0f}'\<close> is \<open>format_f True 5 0\<close> and \<^verbatim>\<open>'{:4.0f}'\<close> is
  \<open>format_f False 4 0\<close>. The value is rounded half-to-even to the precision; with the
  zero flag the padding stands between the sign and the digits, without it blanks
  stand on the left.
\<close>

definition round_half_even :: "real \<Rightarrow> nat" where
  "round_half_even r =
     (let f = nat \<lfloor>r\<rfloor>; d = r - real f in
      if d < 1 / 2 then f else if 1 / 2 < d then f + 1 else if even f then f else f + 1)"

definition fixed_digits :: "nat \<Rightarrow> real \<Rightarrow> string" where
  "fixed_digits prec a =
     (let n = round_half_even (a * 10 ^ prec);
          ip = digits_of (n div 10 ^ prec);
          fp = digits_of (n mod 10 ^ prec)
      in if prec = 0 then ip
         else ip @ ''.'' @ replicate (prec - length fp) (CHR ''0'') @ fp)"

definition format_f :: "bool \<Rightarrow> nat \<Rightarrow> nat \<Rightarrow> float64 \<Rightarrow> string" where
  "format_f zero width prec x =
     (let (sgn, body) =
            (case x of
               Fl r \<Rightarrow> (if r < 0 then ''-'' else [], fixed_digits prec \<bar>r\<bar>)
             | PInf \<Rightarrow> ([], ''inf'')
             | NInf \<Rightarrow> (''-'', ''inf'')
             | NaN \<Rightarrow> ([], ''nan''));
          pad = width - (length sgn + length body)
      in if zero then sgn @ replicate pad (CHR ''0'') @ body
         else replicate pad (CHR '' '') @ sgn @ body)"

section \<open>The ATM adapters: dates and packed times\<close>

subsection \<open>The acquisition date of the file name\<close>

text \<open>
  \<^verbatim>\<open>read_ATM_qfit_file\<close> (lines 158 to 163) and \<^verbatim>\<open>read_ATM_icessn_file\<close> (lines 271
  to 276) resolve the date token \<^verbatim>\<open>YYMMDD\<close> of the file name in the same way. The three
  slices are converted by \<^verbatim>\<open>np.array(..., dtype='i')\<close>; with a token of another length
  than 6 or 8 no branch assigns \<^verbatim>\<open>year\<close>, and the first read of it fails.
\<close>

definition int_array :: "string list \<Rightarrow> py_error + nat list" where
  "int_array ss =
     (if list_all (\<lambda>s. int_of_digits s \<noteq> None) ss then Inr (map digits_val ss)
      else Inl ValueError)"

definition read_ATM_qfit_file_date :: "string \<Rightarrow> py_error + (nat \<times> nat \<times> nat)" where
  "read_ATM_qfit_file_date YYMMDD =
     (if length YYMMDD = 6 then
        (case int_array [take 2 YYMMDD, take 2 (drop 2 YYMMDD), drop 4 YYMMDD] of
           Inr [ypre, month, day] \<Rightarrow>
             Inr (if 90 \<le> ypre then ypre + 1900 else ypre + 2000, month, day)
         | _ \<Rightarrow> Inl ValueError)
      else if length YYMMDD = 8 then
        (case int_array [take 4 YYMMDD, take 2 (drop 4 YYMMDD), drop 6 YYMMDD] of
           Inr [year, month, day] \<Rightarrow> Inr (year, month, day)
         | _ \<Rightarrow> Inl ValueError)
      else Inl UnboundLocalError)"

definition read_ATM_icessn_file_date :: "string \<Rightarrow> py_error + (nat \<times> nat \<times> nat)" where
  "read_ATM_icessn_file_date YYMMDD =
     (if length YYMMDD = 6 then
        (case int_array [take 2 YYMMDD, take 2 (drop 2 YYMMDD), drop 4 YYMMDD] of
           Inr [ypre, month, day] \<Rightarrow>
             Inr (if 90 \<le> ypre then ypre + 1900 else ypre + 2000, month, day)
         | _ \<Rightarrow> Inl ValueError)
      else if length YYMMDD = 8 then
        (case int_array [take 4 YYMMDD, take 2 (drop 4 YYMMDD), drop 6 YYMMDD] of
           Inr [year, month, day] \<Rightarrow> Inr (year, month, day)
         | _ \<Rightarrow> Inl ValueError)
      else Inl UnboundLocalError)"

text \<open>
  The driver \<^verbatim>\<open>compute_tides_icebridge_data\<close> (lines 782 to 790) keeps the date as the
  three strings \<^verbatim>\<open>YY1\<close>, \<^verbatim>\<open>MM1\<close>, \<^verbatim>\<open>DD1\<close> of the output file name. The prefix goes
  through \<^verbatim>\<open>np.float64\<close> and the year is rendered with \<^verbatim>\<open>'{0:4.0f}'\<close>.
\<close>

definition output_date_tokens :: "string \<Rightarrow> py_error + (string \<times> string \<times> string)" where
  "output_date_tokens YYMMDD1 =
     (if length YYMMDD1 = 6 then
        (let ypre = take 2 YYMMDD1; MM1 = take 2 (drop 2 YYMMDD1); DD1 = drop 4 YYMMDD1 in
         case float_of_string ypre of
           None \<Rightarrow> Inl ValueError
         | Some y \<Rightarrow>
             if fge y (Fl 90) then Inr (format_f False 4 0 (fadd y (Fl 1900)), MM1, DD1)
             else Inr (format_f False 4 0 (fadd y (Fl 2000)), MM1, DD1))
      else if length YYMMDD1 = 8 then
        Inr (take 4 YYMMDD1, take 2 (drop 4 YYMMDD1), drop 6 YYMMDD1)
      else Inl UnboundLocalError)"

subsection \<open>The packed time of a QFIT record\<close>

text \<open>
  Lines 211 to 216 (binary files) and 233 to 238 (HDF5 files) of
  \<^verbatim>\<open>read_ATM_qfit_file\<close>: the packed time \<^verbatim>\<open>HHMMSS.mmm\<close> is rendered with
  \<^verbatim>\<open>'{0:010.3f}'\<close>, and hour, minute and second are the conversions of the slices
  \<^verbatim>\<open>[:2]\<close>, \<^verbatim>\<open>[2:4]\<close> and \<^verbatim>\<open>[4:]\<close> of the rendering.
\<close>

definition np_float64 :: "string \<Rightarrow> py_error + float64" where
  "np_float64 s = (case float_of_string s of None \<Rightarrow> Inl ValueError | Some v \<Rightarrow> Inr v)"



section \<open>The argument of the airborne driver and its subsetter\<close>

text \<open>
  Lines 429 to 440 of \<^verbatim>\<open>compute_tides_icebridge_data\<close>. The argument is matched
  against \<^verbatim>\<open>(.*?)(\[(.*?)\])?$\<close>: the file name is the shortest prefix after which
  either a bracketed group closes the string or the string ends. \<^verbatim>\<open>$\<close> also
  matches before a final newline, and \<^verbatim>\<open>.\<close> matches no newline; without a match
  the call \<^verbatim>\<open>match_object.group(1)\<close> fails on \<^verbatim>\<open>None\<close>. The file name is the
  first group; \<^verbatim>\<open>os.path.expanduser\<close>, which only rewrites a leading \<^verbatim>\<open>~\<close>, is left
  out: the main program has expanded the names it passes.
\<close>

definition newline :: char where
  "newline = CHR 0x0A"

definition at_end :: "string \<Rightarrow> bool" where
  "at_end s = (s = [] \<or> s = [newline])"

fun lazy_until_close :: "string \<Rightarrow> string \<Rightarrow> string option" where
  "lazy_until_close acc [] = None"
| "lazy_until_close acc (c # cs) =
     (if c = CHR '']'' \<and> at_end cs then Some (rev acc)
      else if c = newline then None
      else lazy_until_close (c # acc) cs)"

definition bracket_group :: "string \<Rightarrow> string option" where
  "bracket_group s =
     (case s of [] \<Rightarrow> None | c # cs \<Rightarrow> if c = CHR ''['' then lazy_until_close [] cs else None)"

fun match_arg :: "string \<Rightarrow> string \<Rightarrow> (string \<times> string option) option" where
  "match_arg acc [] = Some (rev acc, None)"
| "match_arg acc (c # cs) =
     (case bracket_group (c # cs) of
        Some g \<Rightarrow> Some (rev acc, Some g)
      | None \<Rightarrow>
          if at_end (c # cs) then Some (rev acc, None)
          else if c = newline then None
          else match_arg (c # acc) cs)"

text \<open>
  \<^verbatim>\<open>re.findall(r'((\d+)-(\d+)|(\d+))', ...)\<close> and the loop that decompresses the
  ranges: a run of digits followed by a dash and a digit opens an inclusive range, any
  other run of digits is a single index, every other character is skipped.
\<close>

function parse_subsetter :: "string \<Rightarrow> nat list" where
  "parse_subsetter [] = []"
| "parse_subsetter (c # cs) =
     (if is_digit c then
        (let a = c # takeWhile is_digit cs; r = dropWhile is_digit cs in
         case r of
           [] \<Rightarrow> [digits_val a]
         | d # r' \<Rightarrow>
             if d = CHR ''-'' \<and> takeWhile is_digit r' \<noteq> [] then
               [digits_val a ..< digits_val (takeWhile is_digit r') + 1]
                 @ parse_subsetter (dropWhile is_digit r')
             else digits_val a # parse_subsetter (d # r'))
      else parse_subsetter cs)"
  by pat_completeness auto
termination
proof (relation "measure length", goal_cases)
  case 1
  show ?case by simp
next
  case (2 c cs a r d r')
  have "length (dropWhile is_digit r') \<le> length r'"
    by (rule length_dropWhile_le)
  moreover have "length (d # r') \<le> length cs"
    using 2 length_dropWhile_le [of is_digit cs] by simp
  ultimately show ?case by simp
next
  case (3 c cs a r d r')
  then show ?case
    using length_dropWhile_le [of is_digit cs] by simp
next
  case (4 c cs)
  then show ?case by simp
qed

definition input_subsetter_of :: "string \<Rightarrow> py_error + (string \<times> nat list option)" where
  "input_subsetter_of arg =
     (case match_arg [] arg of
        None \<Rightarrow> Inl AttributeError
      | Some (input_file, None) \<Rightarrow> Inr (input_file, None)
      | Some (input_file, Some g) \<Rightarrow> Inr (input_file, Some (parse_subsetter g)))"

text \<open>
  A subsetter is used where \<^verbatim>\<open>if input_subsetter:\<close> holds: it is neither \<^verbatim>\<open>None\<close>
  nor the empty list. Indexing an array with the list of indices raises
  \<^verbatim>\<open>IndexError\<close> when an index is out of bounds.
\<close>

definition fancy_index :: "'a list \<Rightarrow> nat list \<Rightarrow> py_error + 'a list" where
  "fancy_index val idx =
     (if list_all (\<lambda>i. i < length val) idx then Inr (map (\<lambda>i. val ! i) idx)
      else Inl IndexError)"

text \<open>
  \<^verbatim>\<open>file_length\<close> (lines 132 to 149): with a subsetter the number of records is the
  number of indices; without one it is the size read from the file, which is the
  number of lines that do not start with \<^verbatim>\<open>#\<close> for a text file.
\<close>

definition uncommented :: "string list \<Rightarrow> string list" where
  "uncommented file_lines = filter (\<lambda>l. case l of [] \<Rightarrow> True | c # _ \<Rightarrow> c \<noteq> CHR ''#'') file_lines"

definition file_length :: "nat \<Rightarrow> nat list option \<Rightarrow> nat" where
  "file_length size_in_file input_subsetter =
     (case input_subsetter of
        None \<Rightarrow> size_in_file
      | Some idx \<Rightarrow> if idx \<noteq> [] then length idx else size_in_file)"

text \<open>
  The variables of a track are a dictionary of arrays. Each adapter ends with the same
  loop (lines 253 to 255, 323 to 325 and 418 to 420), which replaces every array by its
  selection.
\<close>

type_synonym track = "(string \<times> float64 list) list"

fun subset_items :: "track \<Rightarrow> nat list \<Rightarrow> py_error + track" where
  "subset_items [] idx = Inr []"
| "subset_items ((key, val) # items) idx =
     (case fancy_index val idx of
        Inl e \<Rightarrow> Inl e
      | Inr v \<Rightarrow>
          (case subset_items items idx of
             Inl e \<Rightarrow> Inl e
           | Inr rest \<Rightarrow> Inr ((key, v) # rest)))"

definition apply_subsetter :: "track \<Rightarrow> nat list option \<Rightarrow> py_error + track" where
  "apply_subsetter d input_subsetter =
     (case input_subsetter of
        None \<Rightarrow> Inr d
      | Some idx \<Rightarrow> if idx \<noteq> [] then subset_items d idx else Inr d)"

definition getitem :: "track \<Rightarrow> string \<Rightarrow> py_error + float64 list" where
  "getitem d key = (case map_of d key of None \<Rightarrow> Inl KeyError | Some v \<Rightarrow> Inr v)"

section \<open>Hemisphere flags\<close>

datatype hemisphere = North | South

text \<open>
  The ATM adapters (lines 256 to 261 and 326 to 331) count the shots with a latitude
  \<^verbatim>\<open>>= 0.0\<close> and those with a latitude \<^verbatim>\<open>< 0.0\<close>, and unpack the list of the keys
  with a count other than zero into the single name \<^verbatim>\<open>HEM\<close>: the unpacking raises
  \<^verbatim>\<open>ValueError\<close> unless the list has exactly one element.
\<close>

definition hemisphere_counts :: "float64 list \<Rightarrow> (hemisphere \<times> nat) list" where
  "hemisphere_counts lat =
     [(North, count_nonzero (map (\<lambda>x. fge x (Fl 0)) lat)),
      (South, count_nonzero (map (\<lambda>x. flt x (Fl 0)) lat))]"

definition ATM_hemisphere :: "float64 list \<Rightarrow> py_error + hemisphere" where
  "ATM_hemisphere lat =
     (case map fst (filter (\<lambda>(key, val). val \<noteq> 0) (hemisphere_counts lat)) of
        [HEM] \<Rightarrow> Inr HEM
      | _ \<Rightarrow> Inl ValueError)"

text \<open>
  The end of \<^verbatim>\<open>read_ATM_qfit_file\<close> and of \<^verbatim>\<open>read_ATM_icessn_file\<close>: the subsetter
  is applied to the dictionary built from the file, then the hemisphere is taken from
  the selected latitudes.
\<close>

definition ATM_finish ::
  "track \<Rightarrow> nat \<Rightarrow> nat list option \<Rightarrow> py_error + (track \<times> nat \<times> hemisphere)" where
  "ATM_finish ATM_input size_in_file input_subsetter =
     (case apply_subsetter ATM_input input_subsetter of
        Inl e \<Rightarrow> Inl e
      | Inr d \<Rightarrow>
          (case getitem d ''lat'' of
             Inl e \<Rightarrow> Inl e
           | Inr lat \<Rightarrow>
               (case ATM_hemisphere lat of
                  Inl e \<Rightarrow> Inl e
                | Inr HEM \<Rightarrow> Inr (d, file_length size_in_file input_subsetter, HEM))))"

text \<open>
  The LVIS adapter looks the region token of the file name up in
  \<^verbatim>\<open>{'GL':'N','AQ':'S'}\<close> (lines 338 and 422).
\<close>

definition lvis_flag :: "string \<Rightarrow> py_error + hemisphere" where
  "lvis_flag REGION =
     (if REGION = ''GL'' then Inr North else if REGION = ''AQ'' then Inr South
      else Inl KeyError)"

text \<open>
  The words of the specification, for comparison: the hemisphere with the larger count
  of points.
\<close>

definition majority_hemisphere :: "float64 list \<Rightarrow> hemisphere" where
  "majority_hemisphere lat =
     (if count_nonzero (map (\<lambda>x. flt x (Fl 0)) lat) < count_nonzero (map (\<lambda>x. fge x (Fl 0)) lat)
      then North else South)"

section \<open>The LVIS adapter\<close>

text \<open>
  \<^verbatim>\<open>read_LVIS_HDF5_file\<close> (lines 336 to 422). The release token \<^verbatim>\<open>RLD\<close> of the
  file name selects the schema: \<^verbatim>\<open>'2.0.2'\<close> when the two digits after the \<^verbatim>\<open>R\<close> are
  at least 18, \<^verbatim>\<open>'1.04'\<close> otherwise.
\<close>

datatype lds_version = LDS_1_04 | LDS_2_0_2

definition LDS_VERSION_of :: "string \<Rightarrow> py_error + lds_version" where
  "LDS_VERSION_of RLD =
     (case int_of_digits (take 2 (drop 1 RLD)) of
        None \<Rightarrow> Inl ValueError
      | Some n \<Rightarrow> Inr (if 18 \<le> n then LDS_2_0_2 else LDS_1_04))"

text \<open>
  One shot of the file: the value of every dataset the adapter reads at the index of
  the shot. A file of the legacy schema has no \<^verbatim>\<open>RH50\<close>, \<^verbatim>\<open>RH100\<close> and no top
  geolocation, a file of the newer schema has no centroid; the branch of the schema
  reads none of the absent fields. The datasets of a file have one length, so that the
  arithmetic of the adapter, which is elementwise, is the arithmetic of each shot.
\<close>

record lvis_shot =
  Elevation_Centroid :: float64
  Elevation_Low :: float64
  Elevation_High :: float64
  Latitude_Centroid :: float64
  Latitude_Low :: float64
  Latitude_Top :: float64
  Longitude_Centroid :: float64
  Longitude_Low :: float64
  Longitude_Top :: float64
  RH50 :: float64
  RH100 :: float64
  J2000 :: float64

text \<open>The dictionary \<^verbatim>\<open>file_input\<close> of lines 354 to 384, at one shot.\<close>

record lvis_file_input =
  fi_elev :: float64
  fi_elev_low :: float64
  fi_elev_high :: float64
  fi_lat :: float64
  fi_lat_low :: float64
  fi_lon :: float64
  fi_lon_low :: float64

definition file_input_of :: "lds_version \<Rightarrow> lvis_shot \<Rightarrow> lvis_file_input" where
  "file_input_of LDS_VERSION s =
     (case LDS_VERSION of
        LDS_1_04 \<Rightarrow>
          \<lparr>fi_elev = Elevation_Centroid s,
           fi_elev_low = Elevation_Low s,
           fi_elev_high = Elevation_High s,
           fi_lat = Latitude_Centroid s,
           fi_lat_low = Latitude_Low s,
           fi_lon = Longitude_Centroid s,
           fi_lon_low = Longitude_Low s\<rparr>
      | LDS_2_0_2 \<Rightarrow>
          \<lparr>fi_elev = fadd (Elevation_Low s) (RH50 s),
           fi_elev_low = Elevation_Low s,
           fi_elev_high = Elevation_High s,
           fi_lat = fadd (Latitude_Low s)
             (fdiv (fmul (RH50 s) (fsub (Latitude_Top s) (Latitude_Low s))) (RH100 s)),
           fi_lat_low = Latitude_Low s,
           fi_lon = fadd (Longitude_Low s)
             (fdiv (fmul (RH50 s) (fsub (Longitude_Top s) (Longitude_Low s))) (RH100 s)),
           fi_lon_low = Longitude_Low s\<rparr>)"

text \<open>
  Lines 390 to 416 at one shot. The index sets \<^verbatim>\<open>ii\<close> and \<^verbatim>\<open>jj\<close> are those of
  \<^verbatim>\<open>elev_low == elev_high\<close> and of \<^verbatim>\<open>elev_low != elev_high\<close>; every shot is in exactly
  one of them. The uncertainty is computed from \<^verbatim>\<open>file_input['elev']\<close> in both cases.
\<close>

record lvis_point =
  pt_data :: float64
  pt_lon :: float64
  pt_lat :: float64
  pt_error :: float64

definition lvis_point_of :: "lvis_file_input \<Rightarrow> lvis_point" where
  "lvis_point_of f =
     (let ii = feq (fi_elev_low f) (fi_elev_high f);
          LVIS_variance_low = fmul (fsub (fi_elev_low f) (fi_elev f)) (fsub (fi_elev_low f) (fi_elev f));
          LVIS_variance_high = fmul (fsub (fi_elev_high f) (fi_elev f)) (fsub (fi_elev_high f) (fi_elev f))
      in \<lparr>pt_data = (if ii then fi_elev_low f else fi_elev f),
          pt_lon = (if ii then fi_lon_low f else fi_lon f),
          pt_lat = (if ii then fi_lat_low f else fi_lat f),
          pt_error = fsqrt (fdiv (fadd LVIS_variance_low LVIS_variance_high) (Fl 2))\<rparr>)"

definition read_LVIS_HDF5_file ::
  "string \<Rightarrow> string \<Rightarrow> lvis_shot list \<Rightarrow> nat list option \<Rightarrow>
     py_error + (track \<times> nat \<times> hemisphere)" where
  "read_LVIS_HDF5_file RLD REGION shots input_subsetter =
     (case LDS_VERSION_of RLD of
        Inl e \<Rightarrow> Inl e
      | Inr LDS_VERSION \<Rightarrow>
          (let pts = map (\<lambda>s. lvis_point_of (file_input_of LDS_VERSION s)) shots;
               LVIS_L2_input =
                 [(''time'', map J2000 shots),
                  (''data'', map pt_data pts),
                  (''lon'', map pt_lon pts),
                  (''lat'', map pt_lat pts),
                  (''error'', map pt_error pts)]
           in case apply_subsetter LVIS_L2_input input_subsetter of
                Inl e \<Rightarrow> Inl e
              | Inr d \<Rightarrow>
                  (case lvis_flag REGION of
                     Inl e \<Rightarrow> Inl e
                   | Inr HEM \<Rightarrow> Inr (d, file_length (length shots) input_subsetter, HEM))))"

section \<open>The tide prediction\<close>

subsection \<open>The services of the tide library\<close>

datatype model_format = OTIS | ATLAS | netcdf | GOT | FES

text \<open>
  The functions of \<^verbatim>\<open>pyTMD\<close> that the drivers call. \<open>extract_constants\<close> stands for the
  reader of the model format together with lines 842 to 844: for the longitudes and
  latitudes of a track it returns the constituent oscillations \<^verbatim>\<open>hc\<close>, one row for
  each point, and the rows of \<^verbatim>\<open>hc.mask\<close>, or it fails. The leap second count, the
  change of epoch and the interpolation of the delta times are tables and arithmetic
  applied to each time of the array. The two prediction routines receive the vectors of
  the points they are called for.
\<close>

record 'h services =
  extract_constants :: "float64 list \<Rightarrow> float64 list \<Rightarrow> py_error + ('h list \<times> bool list list)"
  count_leap_seconds :: "float64 \<Rightarrow> float64"
  convert_delta_time :: "float64 \<Rightarrow> float64"
  calc_delta_time :: "float64 \<Rightarrow> float64"
  predict_tide_drift :: "float64 list \<Rightarrow> 'h list \<Rightarrow> float64 list \<Rightarrow> model_format \<Rightarrow> float64 list"
  infer_minor_corrections :: "float64 list \<Rightarrow> 'h list \<Rightarrow> float64 list \<Rightarrow> model_format \<Rightarrow> float64 list"

text \<open>
  The delta times are zero for the grid formats and interpolated for the \<^verbatim>\<open>GOT\<close> and
  \<^verbatim>\<open>FES\<close> formats.
\<close>

definition deltat_of :: "'h services \<Rightarrow> model_format \<Rightarrow> float64 \<Rightarrow> float64" where
  "deltat_of svc fmt t = (if fmt = GOT \<or> fmt = FES then calc_delta_time svc t else Fl 0)"

text \<open>\<^verbatim>\<open>np.any(hc.mask, axis=1)\<close>: a point is masked when one of its constituents is.\<close>

definition any_axis1 :: "bool list list \<Rightarrow> bool list" where
  "any_axis1 rows = map (list_ex (\<lambda>b. b)) rows"

text \<open>
  An assignment to \<open>n\<close> slots of an array takes \<open>n\<close> values or broadcasts a single one;
  any other length raises \<^verbatim>\<open>ValueError\<close>.
\<close>

definition broadcast_to :: "nat \<Rightarrow> float64 list \<Rightarrow> py_error + float64 list" where
  "broadcast_to n vs =
     (if length vs = n then Inr vs
      else case vs of [v] \<Rightarrow> Inr (replicate n v) | _ \<Rightarrow> Inl ValueError)"

subsection \<open>The airborne driver\<close>

text \<open>
  Lines 807 to 875 of \<^verbatim>\<open>compute_tides_icebridge_data\<close>. The prediction runs over all
  points of the track; the mask is that of the constituents, and the masked slots are
  overwritten with the fill value \<^verbatim>\<open>-9999.0\<close>. The result is the array written to the
  output variable and its mask.
\<close>

definition icebridge_fill_value :: float64 where
  "icebridge_fill_value = Fl (- 9999)"

definition icebridge_tide ::
  "'h services \<Rightarrow> model_format \<Rightarrow> nat \<Rightarrow> float64 list \<Rightarrow> float64 list \<Rightarrow> float64 list \<Rightarrow>
     py_error + (float64 list \<times> bool list)" where
  "icebridge_tide svc fmt file_lines time lon lat =
     (let t = map (convert_delta_time svc) time in
      case extract_constants svc lon lat of
        Inl e \<Rightarrow> Inl e
      | Inr (hc, hc_mask) \<Rightarrow>
          (let deltat = map (deltat_of svc fmt) t;
               tmask = any_axis1 hc_mask
           in if length tmask \<noteq> file_lines then Inl ValueError
              else
                (case broadcast_to file_lines (predict_tide_drift svc t hc deltat fmt) of
                   Inl e \<Rightarrow> Inl e
                 | Inr tide \<Rightarrow>
                     (case broadcast_to file_lines (infer_minor_corrections svc t hc deltat fmt) of
                        Inl e \<Rightarrow> Inl e
                      | Inr minor \<Rightarrow>
                          Inr (map (\<lambda>(d, m). if m then icebridge_fill_value else d)
                                 (zip (map (\<lambda>(a, b). fadd a b) (zip tide minor)) tmask),
                               tmask)))))"

subsection \<open>The repeat-track driver\<close>

text \<open>
  Arrays of two dimensions are lists of rows: \<open>a ! i ! c\<close> is \<^verbatim>\<open>a[i,c]\<close>, and
  \<^verbatim>\<open>a[:,c]\<close> is \<open>column c a\<close>.
\<close>

definition shape2 :: "nat \<Rightarrow> nat \<Rightarrow> 'a list list \<Rightarrow> bool" where
  "shape2 n_rows n_cols a = (length a = n_rows \<and> list_all (\<lambda>row. length row = n_cols) a)"

definition column :: "nat \<Rightarrow> 'a list list \<Rightarrow> 'a list" where
  "column c a = map (\<lambda>row. row ! c) a"

definition set_column :: "nat \<Rightarrow> 'a list \<Rightarrow> 'a list list \<Rightarrow> 'a list list" where
  "set_column c col a = map (\<lambda>(row, v). row[c := v]) (zip a col)"

definition select :: "'a list \<Rightarrow> nat list \<Rightarrow> 'a list" where
  "select xs idx = map (\<lambda>i. xs ! i) idx"

definition scatter :: "'a list \<Rightarrow> nat list \<Rightarrow> 'a list \<Rightarrow> 'a list" where
  "scatter xs idx vals = fold (\<lambda>(i, v) ys. ys[i := v]) (zip idx vals) xs"

definition nonzero :: "bool list \<Rightarrow> nat list" where
  "nonzero bs = filter (\<lambda>i. bs ! i) [0..<length bs]"

text \<open>
  Lines 605 to 613 and 616 to 624: the two routines are called for the valid points of
  a vector of times, and their sum is stored at these points. The other slots keep
  what they held.
\<close>

definition predict_valid ::
  "'h services \<Rightarrow> model_format \<Rightarrow> float64 list \<Rightarrow> 'h list \<Rightarrow> float64 list \<Rightarrow> bool list \<Rightarrow>
     float64 list \<Rightarrow> py_error + float64 list" where
  "predict_valid svc fmt tide_time hc deltat tmask data =
     (let valid = nonzero (map Not tmask);
          t = select tide_time valid;
          h = select hc valid;
          d = select deltat valid
      in case broadcast_to (length valid) (predict_tide_drift svc t h d fmt) of
           Inl e \<Rightarrow> Inl e
         | Inr tide \<Rightarrow>
             (let data1 = scatter data valid tide in
              case broadcast_to (length valid) (infer_minor_corrections svc t h d fmt) of
                Inl e \<Rightarrow> Inl e
              | Inr minor \<Rightarrow>
                  Inr (scatter data1 valid
                         (map (\<lambda>(a, b). fadd a b) (zip (select data1 valid) minor)))))"

fun fold_err :: "('a \<Rightarrow> 's \<Rightarrow> py_error + 's) \<Rightarrow> 'a list \<Rightarrow> 's \<Rightarrow> py_error + 's" where
  "fold_err f [] s = Inr s"
| "fold_err f (x # xs) s = (case f x s of Inl e \<Rightarrow> Inl e | Inr s' \<Rightarrow> fold_err f xs s')"

text \<open>One pass of the loop over the cycles (lines 603 to 613).\<close>

definition at_cycle ::
  "'h services \<Rightarrow> model_format \<Rightarrow> float64 list list \<Rightarrow> 'h list \<Rightarrow> bool list \<Rightarrow>
     float64 list list \<Rightarrow> nat \<Rightarrow> float64 list list \<times> bool list list \<Rightarrow>
     py_error + (float64 list list \<times> bool list list)" where
  "at_cycle svc fmt tide_time hc hc_any deltat cycle st =
     (let (data, tmask) = st;
          mcol = map (\<lambda>(a, b). a \<or> b) (zip (column cycle tmask) hc_any)
      in case predict_valid svc fmt (column cycle tide_time) hc (column cycle deltat) mcol
                (column cycle data) of
           Inl e \<Rightarrow> Inl e
         | Inr dcol \<Rightarrow> Inr (set_column cycle dcol data, set_column cycle mcol tmask))"

text \<open>Lines 626 to 629: masked and NaN values take the fill value and are masked.\<close>

definition fill_invalid :: "float64 \<Rightarrow> float64 list \<Rightarrow> bool list \<Rightarrow> float64 list \<times> bool list" where
  "fill_invalid fv data tmask =
     (map (\<lambda>(d, m). if isnan d \<or> m then fv else d) (zip data tmask),
      map (\<lambda>(d, m). isnan d \<or> m) (zip data tmask))"

definition fill_invalid2 ::
  "float64 \<Rightarrow> float64 list list \<Rightarrow> bool list list \<Rightarrow> float64 list list \<times> bool list list" where
  "fill_invalid2 fv data tmask =
     (map (\<lambda>(drow, mrow). fst (fill_invalid fv drow mrow)) (zip data tmask),
      map (\<lambda>(drow, mrow). snd (fill_invalid fv drow mrow)) (zip data tmask))"

text \<open>
  The tide time of lines 562 to 566: GPS seconds are the epoch of the product plus the
  delta time, the leap seconds are removed and the epoch changed to 1992-01-01.
\<close>

definition tide_time_of :: "'h services \<Rightarrow> float64 \<Rightarrow> float64 \<Rightarrow> float64" where
  "tide_time_of svc atlas_sdp_gps_epoch delta_time =
     (let gps_seconds = fadd atlas_sdp_gps_epoch delta_time;
          leap_seconds = count_leap_seconds svc gps_seconds
      in convert_delta_time svc (fsub gps_seconds leap_seconds))"

text \<open>
  The along-track tides of a beam pair (lines 553 to 613 and 626 to 629, track
  \<^verbatim>\<open>'AT'\<close>). \<open>uninit\<close> is the content of the array that \<^verbatim>\<open>np.ma.empty\<close> returns, which
  is not initialised. The reader must return a row of constituents and of their mask
  for each of the \<open>n_points\<close> reference points.
\<close>

definition tide_AT ::
  "'h services \<Rightarrow> model_format \<Rightarrow> float64 \<Rightarrow> nat \<Rightarrow> nat \<Rightarrow> float64 list list \<Rightarrow> float64 \<Rightarrow>
     float64 list \<Rightarrow> float64 list \<Rightarrow> float64 \<Rightarrow> (nat \<Rightarrow> nat \<Rightarrow> float64) \<Rightarrow>
     py_error + (float64 list list \<times> bool list list)" where
  "tide_AT svc fmt atlas_sdp_gps_epoch n_points n_cycles delta_time delta_time_fill
      longitude latitude fv uninit =
     (let data0 = map (\<lambda>i. map (\<lambda>c. uninit i c) [0..<n_cycles]) [0..<n_points];
          mask0 = map (map (\<lambda>t. feq t delta_time_fill)) delta_time;
          tide_time = map (map (tide_time_of svc atlas_sdp_gps_epoch)) delta_time
      in case extract_constants svc longitude latitude of
           Inl e \<Rightarrow> Inl e
         | Inr (hc, hc_mask) \<Rightarrow>
             if length hc \<noteq> n_points \<or> length hc_mask \<noteq> n_points then Inl ValueError
             else
               (let deltat = map (map (deltat_of svc fmt)) tide_time in
                case fold_err (at_cycle svc fmt tide_time hc (any_axis1 hc_mask) deltat)
                       [0..<n_cycles] (data0, mask0) of
                  Inl e \<Rightarrow> Inl e
                | Inr (data, tmask) \<Rightarrow> Inr (fill_invalid2 fv data tmask)))"

text \<open>The crossing-track tides of a beam pair (track \<^verbatim>\<open>'XT'\<close>, lines 556 to 629).\<close>

definition tide_XT ::
  "'h services \<Rightarrow> model_format \<Rightarrow> float64 \<Rightarrow> float64 list \<Rightarrow> float64 \<Rightarrow>
     float64 list \<Rightarrow> float64 list \<Rightarrow> float64 \<Rightarrow> (nat \<Rightarrow> float64) \<Rightarrow>
     py_error + (float64 list \<times> bool list)" where
  "tide_XT svc fmt atlas_sdp_gps_epoch delta_time delta_time_fill longitude latitude fv uninit =
     (let n_cross = length delta_time;
          data0 = map uninit [0..<n_cross];
          mask0 = map (\<lambda>t. feq t delta_time_fill) delta_time;
          tide_time = map (tide_time_of svc atlas_sdp_gps_epoch) delta_time
      in case extract_constants svc longitude latitude of
           Inl e \<Rightarrow> Inl e
         | Inr (hc, hc_mask) \<Rightarrow>
             if length hc \<noteq> n_cross \<or> length hc_mask \<noteq> n_cross then Inl ValueError
             else
               (let deltat = map (deltat_of svc fmt) tide_time;
                    mask1 = map (\<lambda>(a, b). a \<or> b) (zip mask0 (any_axis1 hc_mask))
                in case predict_valid svc fmt tide_time hc deltat mask1 data0 of
                     Inl e \<Rightarrow> Inl e
                   | Inr data \<Rightarrow> Inr (fill_invalid fv data mask1)))"

subsection \<open>The pipeline on one vector of times\<close>

text \<open>
  For the statement of what a cycle of the along-track tides holds: the steps of the
  prediction on one column, from its delta times, the constituents of the reference
  points and the content of the column before the prediction. This is the computation
  of the crossing-track tides with the column in the place of the flat array.
\<close>

definition tide_column ::
  "'h services \<Rightarrow> model_format \<Rightarrow> float64 \<Rightarrow> float64 \<Rightarrow> float64 \<Rightarrow> 'h list \<Rightarrow> bool list \<Rightarrow>
     float64 list \<Rightarrow> float64 list \<Rightarrow> py_error + (float64 list \<times> bool list)" where
  "tide_column svc fmt atlas_sdp_gps_epoch delta_time_fill fv hc hc_any delta_time data0 =
     (let tide_time = map (tide_time_of svc atlas_sdp_gps_epoch) delta_time;
          deltat = map (deltat_of svc fmt) tide_time;
          mask1 = map (\<lambda>(a, b). a \<or> b) (zip (map (\<lambda>t. feq t delta_time_fill) delta_time) hc_any)
      in case predict_valid svc fmt tide_time hc deltat mask1 data0 of
           Inl e \<Rightarrow> Inl e
         | Inr data \<Rightarrow> Inr (fill_invalid fv data mask1))"

text \<open>
  The prediction routines return one value for each time they receive; the drivers rely
  on it when they store the result.
\<close>

definition returns_one_value_per_time :: "'h services \<Rightarrow> bool" where
  "returns_one_value_per_time svc =
     (\<forall>t h d fmt. length (predict_tide_drift svc t h d fmt) = length t
        \<and> length (infer_minor_corrections svc t h d fmt) = length t)"

subsection \<open>A stand-in for the services\<close>

text \<open>
  Concrete services for the examples: the model covers the latitudes below 75 degrees
  and masks its single constituent elsewhere; the predicted tide is the tide time
  itself, so that a time that is NaN gives a tide that is NaN, and the minor
  constituents contribute one half. There are no leap seconds and no change of epoch.
\<close>

definition example_services :: "unit services" where
  "example_services =
     \<lparr>extract_constants = (\<lambda>lon lat. Inr (map (\<lambda>x. ()) lat, map (\<lambda>x. [\<not> flt x (Fl 75)]) lat)),
      count_leap_seconds = (\<lambda>t. Fl 0),
      convert_delta_time = (\<lambda>t. t),
      calc_delta_time = (\<lambda>t. Fl 0),
      predict_tide_drift = (\<lambda>t h d fmt. t),
      infer_minor_corrections = (\<lambda>t h d fmt. map (\<lambda>x. Fl (1 / 2)) t)\<rparr>"

section \<open>Geospatial and temporal ranges of the output\<close>

text \<open>
  The airborne driver (lines 921 to 924) takes the minimum and the maximum of the
  latitudes and of the longitudes of the track as the adapter returned it.
\<close>

definition icebridge_geospatial ::
  "float64 list \<Rightarrow> float64 list \<Rightarrow> py_error + (float64 \<times> float64 \<times> float64 \<times> float64)" where
  "icebridge_geospatial lat lon =
     (case (np_min lat, np_max lat, np_min lon, np_max lon) of
        (Inr lat_min, Inr lat_max, Inr lon_min, Inr lon_max) \<Rightarrow>
          Inr (lat_min, lat_max, lon_min, lon_max)
      | _ \<Rightarrow> Inl ValueError)"

text \<open>
  \<^verbatim>\<open>HDF5_ATL11_tide_write\<close> (lines 986 to 1004) runs over the beam pairs. Longitude and
  latitude are the along-track arrays of the pair: they were wrapped by
  \<^verbatim>\<open>np.ma.array\<close> with a fill value and no mask, so that their minimum and maximum
  run over every element. Only the delta times are restricted to the elements other
  than their fill value. The six ranges start at plus and minus infinity.
\<close>

record atl11_group =
  g_longitude :: "float64 list"
  g_latitude :: "float64 list"
  g_delta_time :: "float64 list list"
  g_delta_time_fill :: float64

record atl11_ranges =
  lnmn :: float64
  lnmx :: float64
  ltmn :: float64
  ltmx :: float64
  tmn :: float64
  tmx :: float64

definition lower :: "float64 \<Rightarrow> float64 \<Rightarrow> float64" where
  "lower v cur = (if flt v cur then v else cur)"

definition higher :: "float64 \<Rightarrow> float64 \<Rightarrow> float64" where
  "higher v cur = (if fgt v cur then v else cur)"

definition ranges_step :: "atl11_group \<Rightarrow> atl11_ranges \<Rightarrow> py_error + atl11_ranges" where
  "ranges_step g r =
     (let valid = filter (\<lambda>t. fne t (g_delta_time_fill g)) (concat (g_delta_time g)) in
      case (np_min (g_longitude g), np_max (g_longitude g),
            np_min (g_latitude g), np_max (g_latitude g),
            np_min valid, np_max valid) of
        (Inr lon_min, Inr lon_max, Inr lat_min, Inr lat_max, Inr t_min, Inr t_max) \<Rightarrow>
          Inr \<lparr>lnmn = lower lon_min (lnmn r), lnmx = higher lon_max (lnmx r),
               ltmn = lower lat_min (ltmn r), ltmx = higher lat_max (ltmx r),
               tmn = lower t_min (tmn r), tmx = higher t_max (tmx r)\<rparr>
      | _ \<Rightarrow> Inl ValueError)"

definition ICESat2_ranges :: "atl11_group list \<Rightarrow> py_error + atl11_ranges" where
  "ICESat2_ranges pairs =
     fold_err ranges_step pairs
       \<lparr>lnmn = PInf, lnmx = NInf, ltmn = PInf, ltmx = NInf, tmn = PInf, tmx = NInf\<rparr>"

text \<open>
  The words of the specification, for comparison: the minimum and the maximum over the
  points that are not masked.
\<close>

definition unmasked :: "float64 list \<Rightarrow> bool list \<Rightarrow> float64 list" where
  "unmasked vals tmask = map fst (filter (\<lambda>(v, m). \<not> m) (zip vals tmask))"

definition spec_geospatial ::
  "float64 list \<Rightarrow> float64 list \<Rightarrow> bool list \<Rightarrow>
     py_error + (float64 \<times> float64 \<times> float64 \<times> float64)" where
  "spec_geospatial lat lon tmask = icebridge_geospatial (unmasked lat tmask) (unmasked lon tmask)"

text \<open>
  For the statement of what the ranges are: a beam pair with finite coordinates \<open>lons\<close>
  and \<open>lats\<close> and at least one delta time other than the fill value, and the range
  reached after the values \<open>xs\<close> have been seen.
\<close>

definition finite_group :: "atl11_group \<Rightarrow> real list \<Rightarrow> real list \<Rightarrow> bool" where
  "finite_group g lons lats =
     (g_longitude g = map Fl lons \<and> g_latitude g = map Fl lats \<and> lons \<noteq> [] \<and> lats \<noteq> []
      \<and> list_ex (\<lambda>t. fne t (g_delta_time_fill g)) (concat (g_delta_time g)))"

definition seen_min :: "real list \<Rightarrow> float64" where
  "seen_min xs = (if xs = [] then PInf else Fl (Min (set xs)))"

definition seen_max :: "real list \<Rightarrow> float64" where
  "seen_max xs = (if xs = [] then NInf else Fl (Max (set xs)))"

section \<open>The catalogue of tide models\<close>

text \<open>
  Both drivers select the model with the same chain of comparisons (lines 455 to 744
  of the airborne driver, 118 to 464 of the repeat-track driver), which has no final
  \<^verbatim>\<open>else\<close>: for any other identifier, \<^verbatim>\<open>None\<close> included, no branch runs and the
  variables of the model stay unassigned. Of each branch the format and the name of the
  output variable are kept.
\<close>

definition select_model :: "string option \<Rightarrow> (model_format \<times> string) option" where
  "select_model TIDE_MODEL =
     (if TIDE_MODEL = Some ''CATS0201'' then Some (OTIS, ''tide_ocean'')
      else if TIDE_MODEL = Some ''CATS2008'' then Some (OTIS, ''tide_ocean'')
      else if TIDE_MODEL = Some ''CATS2008_load'' then Some (OTIS, ''tide_load'')
      else if TIDE_MODEL = Some ''TPXO9-atlas'' then Some (netcdf, ''tide_ocean'')
      else if TIDE_MODEL = Some ''TPXO9-atlas-v2'' then Some (netcdf, ''tide_ocean'')
      else if TIDE_MODEL = Some ''TPXO9-atlas-v3'' then Some (netcdf, ''tide_ocean'')
      else if TIDE_MODEL = Some ''TPXO9-atlas-v4'' then Some (OTIS, ''tide_ocean'')
      else if TIDE_MODEL = Some ''TPXO9.1'' then Some (OTIS, ''tide_ocean'')
      else if TIDE_MODEL = Some ''TPXO8-atlas'' then Some (ATLAS, ''tide_ocean'')
      else if TIDE_MODEL = Some ''TPXO7.2'' then Some (OTIS, ''tide_ocean'')
      else if TIDE_MODEL = Some ''TPXO7.2_load'' then Some (OTIS, ''tide_load'')
      else if TIDE_MODEL = Some ''AODTM-5'' then Some (OTIS, ''tide_ocean'')
      else if TIDE_MODEL = Some ''AOTIM-5'' then Some (OTIS, ''tide_ocean'')
      else if TIDE_MODEL = Some ''AOTIM-5-2018'' then Some (OTIS, ''tide_ocean'')
      else if TIDE_MODEL = Some ''Gr1km-v2'' then Some (OTIS, ''tide_ocean'')
      else if TIDE_MODEL = Some ''GOT4.7'' then Some (GOT, ''tide_ocean'')
      else if TIDE_MODEL = Some ''GOT4.7_load'' then Some (GOT, ''tide_load'')
      else if TIDE_MODEL = Some ''GOT4.8'' then Some (GOT, ''tide_ocean'')
      else if TIDE_MODEL = Some ''GOT4.8_load'' then Some (GOT, ''tide_load'')
      else if TIDE_MODEL = Some ''GOT4.10'' then Some (GOT, ''tide_ocean'')
      else if TIDE_MODEL = Some ''GOT4.10_load'' then Some (GOT, ''tide_load'')
      else if TIDE_MODEL = Some ''FES2014'' then Some (FES, ''tide_ocean'')
      else if TIDE_MODEL = Some ''FES2014_load'' then Some (FES, ''tide_load'')
      else None)"

text \<open>
  \<^verbatim>\<open>main\<close> of either driver declares the option \<^verbatim>\<open>--tide\<close> with the default
  \<^verbatim>\<open>'CATS2008'\<close> and these \<^verbatim>\<open>choices\<close>; \<^verbatim>\<open>parse_args\<close> exits on any other value.
\<close>

definition model_choices :: "string list" where
  "model_choices =
     [''CATS0201'', ''CATS2008'', ''CATS2008_load'',
      ''TPXO9-atlas'', ''TPXO9-atlas-v2'', ''TPXO9-atlas-v3'', ''TPXO9-atlas-v4'',
      ''TPXO9.1'', ''TPXO8-atlas'', ''TPXO7.2'', ''TPXO7.2_load'',
      ''AODTM-5'', ''AOTIM-5'', ''AOTIM-5-2018'', ''Gr1km-v2'',
      ''GOT4.7'', ''GOT4.7_load'', ''GOT4.8'', ''GOT4.8_load'', ''GOT4.10'', ''GOT4.10_load'',
      ''FES2014'', ''FES2014_load'']"

definition parse_tide :: "string option \<Rightarrow> py_error + string" where
  "parse_tide opt =
     (case opt of
        None \<Rightarrow> Inr ''CATS2008''
      | Some m \<Rightarrow> if m \<in> set model_choices then Inr m else Inl ArgumentError)"

section \<open>Output file names\<close>

subsection \<open>The repeat-track driver\<close>

text \<open>
  Lines 471 to 485. The name of the input is searched for
  \<^verbatim>\<open>(processed_)?(ATL\d{2})_(\d{4})(\d{2})_(\d{2})(\d{2})_(\d{3})_(\d{2})(.*?).h5$\<close>. A
  match ends at the end of the string (or before a final newline), so \<^verbatim>\<open>findall\<close>
  returns at most one match, the leftmost, and \<^verbatim>\<open>pop\<close> takes it; on the empty list
  \<^verbatim>\<open>pop\<close> raises and the bare \<^verbatim>\<open>except\<close> selects the generic name.
\<close>

record granule =
  SUB :: string
  PRD :: string
  TRK :: string
  GRAN :: string
  SCYC :: string
  ECYC :: string
  RL :: string
  VERS :: string
  AUX :: string

definition literal :: "string \<Rightarrow> string \<Rightarrow> string option" where
  "literal p s = (if take (length p) s = p then Some (drop (length p) s) else None)"

definition digits :: "nat \<Rightarrow> string \<Rightarrow> (string \<times> string) option" where
  "digits n s =
     (if n \<le> length s \<and> list_all is_digit (take n s) then Some (take n s, drop n s) else None)"

text \<open>
  The tail \<^verbatim>\<open>(.*?).h5$\<close>: the shortest run of characters other than newlines after
  which one more such character, \<^verbatim>\<open>h5\<close> and the end follow.
\<close>

fun lazy_aux :: "string \<Rightarrow> string \<Rightarrow> string option" where
  "lazy_aux acc (c # h # f # rest) =
     (if c \<noteq> newline \<and> h = CHR ''h'' \<and> f = CHR ''5'' \<and> at_end rest then Some (rev acc)
      else if c = newline then None
      else lazy_aux (c # acc) (h # f # rest))"
| "lazy_aux acc _ = None"

definition match_granule_at :: "string \<Rightarrow> granule option" where
  "match_granule_at s =
     (let (sub, s0) = (case literal ''processed_'' s of Some r \<Rightarrow> (''processed_'', r) | None \<Rightarrow> ([], s))
      in do {
        s1 \<leftarrow> literal ''ATL'' s0;
        (prd, s2) \<leftarrow> digits 2 s1;
        s3 \<leftarrow> literal ''_'' s2;
        (trk, s4) \<leftarrow> digits 4 s3;
        (gran, s5) \<leftarrow> digits 2 s4;
        s6 \<leftarrow> literal ''_'' s5;
        (scyc, s7) \<leftarrow> digits 2 s6;
        (ecyc, s8) \<leftarrow> digits 2 s7;
        s9 \<leftarrow> literal ''_'' s8;
        (rl, s10) \<leftarrow> digits 3 s9;
        s11 \<leftarrow> literal ''_'' s10;
        (vers, s12) \<leftarrow> digits 2 s11;
        aux \<leftarrow> lazy_aux [] s12;
        Some \<lparr>SUB = sub, PRD = ''ATL'' @ prd, TRK = trk, GRAN = gran, SCYC = scyc,
              ECYC = ecyc, RL = rl, VERS = vers, AUX = aux\<rparr>
      })"

fun rx_findall :: "string \<Rightarrow> granule option" where
  "rx_findall [] = None"
| "rx_findall (c # cs) =
     (case match_granule_at (c # cs) of Some g \<Rightarrow> Some g | None \<Rightarrow> rx_findall cs)"

text \<open>
  \<^verbatim>\<open>os.path.splitext\<close>: the extension starts at the last dot of the last component of
  the path, unless only dots stand before it in that component.
\<close>

definition splitext :: "string \<Rightarrow> string \<times> string" where
  "splitext p =
     (let rp = rev p;
          ext = takeWhile (\<lambda>c. c \<noteq> CHR ''.'' \<and> c \<noteq> CHR ''/'') rp;
          rest = dropWhile (\<lambda>c. c \<noteq> CHR ''.'' \<and> c \<noteq> CHR ''/'') rp
      in case rest of
           [] \<Rightarrow> (p, [])
         | c # stem \<Rightarrow>
             if c = CHR ''.'' \<and> list_ex (\<lambda>d. d \<noteq> CHR ''.'') (takeWhile (\<lambda>d. d \<noteq> CHR ''/'') stem)
             then (rev stem, CHR ''.'' # rev ext)
             else (p, []))"

text \<open>\<^verbatim>\<open>str.format\<close> renders the identifier of the model; \<^verbatim>\<open>None\<close> is rendered by its name.\<close>

definition str_of_model :: "string option \<Rightarrow> string" where
  "str_of_model TIDE_MODEL = (case TIDE_MODEL of None \<Rightarrow> ''None'' | Some m \<Rightarrow> m)"

definition ICESat2_OUTPUT_FILE :: "string \<Rightarrow> string option \<Rightarrow> string" where
  "ICESat2_OUTPUT_FILE INPUT_FILE TIDE_MODEL =
     (case rx_findall INPUT_FILE of
        None \<Rightarrow>
          (let (fileBasename, fileExtension) = splitext INPUT_FILE in
           fileBasename @ ''_'' @ str_of_model TIDE_MODEL @ ''_TIDES'' @ fileExtension)
      | Some g \<Rightarrow>
          PRD g @ ''_'' @ str_of_model TIDE_MODEL @ ''_TIDES_'' @ TRK g @ GRAN g @ ''_''
            @ SCYC g @ ECYC g @ ''_'' @ RL g @ ''_'' @ VERS g @ AUX g @ ''.h5'')"

text \<open>
  The grammar of the names of the granules, for the statement of what the pattern
  matches: an optional \<^verbatim>\<open>processed_\<close>, the product \<^verbatim>\<open>ATL\<close> with two digits, track and
  granule, first and last cycle, release and version as digits of fixed widths, any
  auxiliary text, one more character and \<^verbatim>\<open>h5\<close>.
\<close>

definition granule_name :: "granule \<Rightarrow> char \<Rightarrow> string" where
  "granule_name g c =
     SUB g @ PRD g @ ''_'' @ TRK g @ GRAN g @ ''_'' @ SCYC g @ ECYC g @ ''_'' @ RL g @ ''_''
       @ VERS g @ AUX g @ c # ''h5''"

definition granule_tokens :: "granule \<Rightarrow> bool" where
  "granule_tokens g =
     ((SUB g = [] \<or> SUB g = ''processed_'')
      \<and> (\<exists>d. PRD g = ''ATL'' @ d \<and> length d = 2 \<and> list_all is_digit d)
      \<and> length (TRK g) = 4 \<and> list_all is_digit (TRK g)
      \<and> length (GRAN g) = 2 \<and> list_all is_digit (GRAN g)
      \<and> length (SCYC g) = 2 \<and> list_all is_digit (SCYC g)
      \<and> length (ECYC g) = 2 \<and> list_all is_digit (ECYC g)
      \<and> length (RL g) = 3 \<and> list_all is_digit (RL g)
      \<and> length (VERS g) = 2 \<and> list_all is_digit (VERS g)
      \<and> newline \<notin> set (AUX g))"

subsection \<open>The airborne driver\<close>

text \<open>
  Lines 776 to 793 and 853 to 858. \<^verbatim>\<open>OIB\<close> is the key of the pattern that the name of
  the input matched and the date tokens are groups of that pattern: for the ATM
  products the group \<^verbatim>\<open>YYMMDD1\<close>, for the LVIS products the groups \<^verbatim>\<open>YY1\<close> and
  \<^verbatim>\<open>MMDD1\<close>. The last field of the name is the least time of the track modulo one
  day, rendered with \<^verbatim>\<open>'{6:05.0f}'\<close>.
\<close>

datatype oib = ATM | ATM1b | LVIS | LVGH

definition str_of_oib :: "oib \<Rightarrow> string" where
  "str_of_oib k = (case k of ATM \<Rightarrow> ''ATM'' | ATM1b \<Rightarrow> ''ATM1b'' | LVIS \<Rightarrow> ''LVIS'' | LVGH \<Rightarrow> ''LVGH'')"

definition hem_flag :: "hemisphere \<Rightarrow> string" where
  "hem_flag HEM = (case HEM of North \<Rightarrow> ''GR'' | South \<Rightarrow> ''AN'')"

definition icebridge_date_tokens ::
  "oib \<Rightarrow> string \<Rightarrow> string \<Rightarrow> py_error + (string \<times> string \<times> string)" where
  "icebridge_date_tokens OIB tok1 tok2 =
     (if OIB = ATM \<or> OIB = ATM1b then output_date_tokens tok1
      else Inr (tok1, take 2 tok2, drop 2 tok2))"

definition icebridge_FILENAME ::
  "hemisphere \<Rightarrow> string \<Rightarrow> oib \<Rightarrow> string \<Rightarrow> string \<Rightarrow> float64 list \<Rightarrow> py_error + string" where
  "icebridge_FILENAME HEM TIDE_MODEL OIB tok1 tok2 time =
     (case icebridge_date_tokens OIB tok1 tok2 of
        Inl e \<Rightarrow> Inl e
      | Inr (YY1, MM1, DD1) \<Rightarrow>
          (case np_min time of
             Inl e \<Rightarrow> Inl e
           | Inr t0 \<Rightarrow>
               Inr (hem_flag HEM @ ''_NASA_'' @ TIDE_MODEL @ ''_TIDES_WGS84_'' @ str_of_oib OIB
                      @ YY1 @ MM1 @ DD1 @ format_f True 5 0 (fmod_pos t0 86400) @ ''.H5'')))"

section \<open>The drivers\<close>

text \<open>
  The two drivers as functions of what they are given and of what they find in the
  files. A run returns the input files it has opened, in their order, and either the
  exception that ended it or what it computed for the output file.
\<close>

datatype io_event = ReadInput string

fun map_err :: "('a \<Rightarrow> py_error + 'b) \<Rightarrow> 'a list \<Rightarrow> py_error + 'b list" where
  "map_err f [] = Inr []"
| "map_err f (x # xs) =
     (case f x of
        Inl e \<Rightarrow> Inl e
      | Inr y \<Rightarrow> (case map_err f xs of Inl e \<Rightarrow> Inl e | Inr ys \<Rightarrow> Inr (y # ys)))"

fun run_all ::
  "('a \<Rightarrow> io_event list \<times> (py_error + 'b)) \<Rightarrow> 'a list \<Rightarrow> io_event list \<times> (py_error + 'b list)" where
  "run_all f [] = ([], Inr [])"
| "run_all f (x # xs) =
     (case f x of
        (ev, Inl e) \<Rightarrow> (ev, Inl e)
      | (ev, Inr y) \<Rightarrow>
          (case run_all f xs of
             (ev', Inl e) \<Rightarrow> (ev @ ev', Inl e)
           | (ev', Inr ys) \<Rightarrow> (ev @ ev', Inr (y # ys))))"

subsection \<open>The airborne driver\<close>

text \<open>
  What an adapter finds in a file: the ATM adapters the dictionary of the records and
  their number, the LVIS adapter the release and the region of the name and the shots.
\<close>

datatype oib_file = ATM_file track nat | LVIS_file string string "lvis_shot list"

definition read_input ::
  "oib_file \<Rightarrow> nat list option \<Rightarrow> py_error + (track \<times> nat \<times> hemisphere)" where
  "read_input file input_subsetter =
     (case file of
        ATM_file ATM_input size_in_file \<Rightarrow> ATM_finish ATM_input size_in_file input_subsetter
      | LVIS_file RLD REGION shots \<Rightarrow> read_LVIS_HDF5_file RLD REGION shots input_subsetter)"

record icebridge_product =
  o_FILENAME :: string
  o_lat :: "float64 list"
  o_lon :: "float64 list"
  o_tide :: "float64 list"
  o_tide_mask :: "bool list"
  o_geospatial :: "float64 \<times> float64 \<times> float64 \<times> float64"

text \<open>
  \<^verbatim>\<open>compute_tides_icebridge_data\<close>, lines 426 to 949. \<open>patterns\<close> stands for the four
  patterns of lines 446 to 449 on the name of the input: the key of the pattern that
  matches and the date tokens of its groups, or nothing when none matches, and then
  \<^verbatim>\<open>OIB\<close> is never assigned. The chain of the models comes first and opens no file;
  \<^verbatim>\<open>output_variable\<close> is read at line 761, \<^verbatim>\<open>OIB\<close> at line 780, and the adapter opens
  the input at lines 797 to 805. The constituents are read before the name of the
  output is formed, and the tide is predicted after it. A date token of a length other
  than six or eight leaves the year unassigned, which is noticed where the name is
  formed (line 857).
\<close>

definition compute_tides_icebridge_data ::
  "'h services \<Rightarrow> string \<Rightarrow> string option \<Rightarrow> (string \<Rightarrow> (oib \<times> string \<times> string) option) \<Rightarrow>
     (string \<Rightarrow> oib_file) \<Rightarrow> io_event list \<times> (py_error + icebridge_product)" where
  "compute_tides_icebridge_data svc arg TIDE_MODEL patterns files =
     (case input_subsetter_of arg of
        Inl e \<Rightarrow> ([], Inl e)
      | Inr (input_file, input_subsetter) \<Rightarrow>
          (case select_model TIDE_MODEL of
             None \<Rightarrow> ([], Inl UnboundLocalError)
           | Some (fmt, output_variable) \<Rightarrow>
               (case patterns input_file of
                  None \<Rightarrow> ([], Inl UnboundLocalError)
                | Some (OIB, tok1, tok2) \<Rightarrow>
                    if icebridge_date_tokens OIB tok1 tok2 = Inl ValueError
                    then ([], Inl ValueError)
                    else
                      ([ReadInput input_file],
                       case read_input (files input_file) input_subsetter of
                         Inl e \<Rightarrow> Inl e
                       | Inr (dinput, file_lines, HEM) \<Rightarrow>
                           (case (getitem dinput ''time'', getitem dinput ''lon'',
                                  getitem dinput ''lat'') of
                              (Inr time, Inr lon, Inr lat) \<Rightarrow>
                                (case extract_constants svc lon lat of
                                   Inl e \<Rightarrow> Inl e
                                 | Inr hc \<Rightarrow>
                                     (case icebridge_FILENAME HEM (str_of_model TIDE_MODEL) OIB
                                             tok1 tok2 time of
                                        Inl e \<Rightarrow> Inl e
                                      | Inr FILENAME \<Rightarrow>
                                          (case icebridge_tide svc fmt file_lines time lon lat of
                                             Inl e \<Rightarrow> Inl e
                                           | Inr (tide, tmask) \<Rightarrow>
                                               (case icebridge_geospatial lat lon of
                                                  Inl e \<Rightarrow> Inl e
                                                | Inr bounds \<Rightarrow>
                                                    Inr \<lparr>o_FILENAME = FILENAME, o_lat = lat,
                                                         o_lon = lon, o_tide = tide,
                                                         o_tide_mask = tmask,
                                                         o_geospatial = bounds\<rparr>))))
                            | _ \<Rightarrow> Inl KeyError)))))"

text \<open>
  The main program (lines 952 to 1011) parses the options and calls the driver for each
  input file in turn; an exception ends the program. The option \<^verbatim>\<open>--tide\<close> is declared
  with \<^verbatim>\<open>choices=model_choices\<close>, so that the parser exits on any other identifier.
\<close>

definition main_icebridge ::
  "'h services \<Rightarrow> string option \<Rightarrow> string list \<Rightarrow> (string \<Rightarrow> (oib \<times> string \<times> string) option) \<Rightarrow>
     (string \<Rightarrow> oib_file) \<Rightarrow> io_event list \<times> (py_error + icebridge_product list)" where
  "main_icebridge svc tide_option infile patterns files =
     (case parse_tide tide_option of
        Inl e \<Rightarrow> ([], Inl e)
      | Inr m \<Rightarrow>
          run_all (\<lambda>arg. compute_tides_icebridge_data svc arg (Some m) patterns files) infile)"

subsection \<open>The repeat-track driver\<close>

text \<open>
  A beam pair as \<^verbatim>\<open>read_HDF5_ATL11\<close> returns it: the along-track times of the
  reference points in each cycle, the along-track coordinates, the crossing-track
  times and coordinates, and the fill values of the attributes.
\<close>

record atl11_pair =
  bp_delta_time :: "float64 list list"
  bp_n_cycles :: nat
  bp_delta_time_fill :: float64
  bp_longitude :: "float64 list"
  bp_latitude :: "float64 list"
  bp_fv :: float64
  bp_XT_delta_time :: "float64 list"
  bp_XT_delta_time_fill :: float64
  bp_XT_longitude :: "float64 list"
  bp_XT_latitude :: "float64 list"

text \<open>
  The body of the loop over the beam pairs (lines 514 to 629). The times are converted
  first; \<^verbatim>\<open>model_format\<close> is the first variable of the chain that is read (line 568),
  and reading it when the chain assigned nothing raises \<^verbatim>\<open>UnboundLocalError\<close>.
\<close>

definition pair_tides ::
  "'h services \<Rightarrow> (model_format \<times> string) option \<Rightarrow> float64 \<Rightarrow> (nat \<Rightarrow> nat \<Rightarrow> float64) \<Rightarrow>
     (nat \<Rightarrow> float64) \<Rightarrow> atl11_pair \<Rightarrow>
     py_error + ((float64 list list \<times> bool list list) \<times> (float64 list \<times> bool list))" where
  "pair_tides svc model atlas_sdp_gps_epoch uninit_AT uninit_XT p =
     (case model of
        None \<Rightarrow> Inl UnboundLocalError
      | Some (fmt, variable) \<Rightarrow>
          (case tide_AT svc fmt atlas_sdp_gps_epoch (length (bp_delta_time p)) (bp_n_cycles p)
                  (bp_delta_time p) (bp_delta_time_fill p) (bp_longitude p) (bp_latitude p)
                  (bp_fv p) uninit_AT of
             Inl e \<Rightarrow> Inl e
           | Inr tide_at \<Rightarrow>
               (case tide_XT svc fmt atlas_sdp_gps_epoch (bp_XT_delta_time p)
                       (bp_XT_delta_time_fill p) (bp_XT_longitude p) (bp_XT_latitude p)
                       (bp_fv p) uninit_XT of
                  Inl e \<Rightarrow> Inl e
                | Inr tide_xt \<Rightarrow> Inr (tide_at, tide_xt))))"

definition group_of :: "atl11_pair \<Rightarrow> atl11_group" where
  "group_of p =
     \<lparr>g_longitude = bp_longitude p, g_latitude = bp_latitude p,
      g_delta_time = bp_delta_time p, g_delta_time_fill = bp_delta_time_fill p\<rparr>"

record atl11_product =
  a_OUTPUT_FILE :: string
  a_tides :: "((float64 list list \<times> bool list list) \<times> (float64 list \<times> bool list)) list"
  a_ranges :: atl11_ranges

text \<open>
  \<^verbatim>\<open>compute_tides_ICESat2\<close>, lines 115 to 864, up to the ranges that
  \<^verbatim>\<open>HDF5_ATL11_tide_write\<close> computes (what it does with them, the conversion of the
  temporal range to calendar dates, is left out). The chain of the models comes first; then the
  whole input is read (line 468) and the name of the output is formed; then come the
  beam pairs. \<open>read_HDF5_ATL11\<close> stands for the reader of the input, a function of
  another package, which returns the epoch and the beam pairs.
\<close>

definition compute_tides_ICESat2 ::
  "'h services \<Rightarrow> string \<Rightarrow> string option \<Rightarrow>
     (string \<Rightarrow> py_error + float64 \<times> atl11_pair list) \<Rightarrow> (nat \<Rightarrow> nat \<Rightarrow> float64) \<Rightarrow>
     (nat \<Rightarrow> float64) \<Rightarrow> io_event list \<times> (py_error + atl11_product)" where
  "compute_tides_ICESat2 svc INPUT_FILE TIDE_MODEL read_HDF5_ATL11 uninit_AT uninit_XT =
     ([ReadInput INPUT_FILE],
      case read_HDF5_ATL11 INPUT_FILE of
        Inl e \<Rightarrow> Inl e
      | Inr (atlas_sdp_gps_epoch, pairs) \<Rightarrow>
          (case map_err (pair_tides svc (select_model TIDE_MODEL) atlas_sdp_gps_epoch
                           uninit_AT uninit_XT) pairs of
             Inl e \<Rightarrow> Inl e
           | Inr tides \<Rightarrow>
               (case ICESat2_ranges (map group_of pairs) of
                  Inl e \<Rightarrow> Inl e
                | Inr r \<Rightarrow>
                    Inr \<lparr>a_OUTPUT_FILE = ICESat2_OUTPUT_FILE INPUT_FILE TIDE_MODEL,
                         a_tides = tides, a_ranges = r\<rparr>)))"

text \<open>The main program (lines 1032 to 1093); \<open>infile\<close> are the names as it normalised them.\<close>

definition main_ICESat2 ::
  "'h services \<Rightarrow> string option \<Rightarrow> string list \<Rightarrow>
     (string \<Rightarrow> py_error + float64 \<times> atl11_pair list) \<Rightarrow> (nat \<Rightarrow> nat \<Rightarrow> float64) \<Rightarrow>
     (nat \<Rightarrow> float64) \<Rightarrow> io_event list \<times> (py_error + atl11_product list)" where
  "main_ICESat2 svc tide_option infile read_HDF5_ATL11 uninit_AT uninit_XT =
     (case parse_tide tide_option of
        Inl e \<Rightarrow> ([], Inl e)
      | Inr m \<Rightarrow>
          run_all (\<lambda>FILE. compute_tides_ICESat2 svc FILE (Some m) read_HDF5_ATL11
                     uninit_AT uninit_XT) infile)"

subsection \<open>A beam pair to run the driver on\<close>

text \<open>
  Two reference points seen in two cycles, the second point without a time in the
  second cycle, and one crossing.
\<close>

definition example_pair :: atl11_pair where
  "example_pair =
     \<lparr>bp_delta_time = [[Fl 10, Fl 20], [Fl 11, Fl 999]], bp_n_cycles = 2,
      bp_delta_time_fill = Fl 999,
      bp_longitude = [Fl (- 45), Fl (- 44)], bp_latitude = [Fl 70, Fl 71],
      bp_fv = Fl 888,
      bp_XT_delta_time = [Fl 12], bp_XT_delta_time_fill = Fl 999,
      bp_XT_longitude = [Fl (- 45)], bp_XT_latitude = [Fl 70]\<rparr>"

chapter \<open>Properties\<close>

section \<open>Dates and packed times of the ATM adapters\<close>


subsection \<open>Decimal strings\<close>

lemma digit_char_is_digit: "n < 10 \<Longrightarrow> is_digit (''0123456789'' ! n)"
proof -
  assume "n < 10"
  then have "n \<in> {0, 1, 2, 3, 4, 5, 6, 7, 8, 9}" by auto
  then show ?thesis by (auto simp: is_digit_def)
qed

lemma digit_val_digit_char: "n < 10 \<Longrightarrow> digit_val (''0123456789'' ! n) = n"
proof -
  assume "n < 10"
  then have "n \<in> {0, 1, 2, 3, 4, 5, 6, 7, 8, 9}" by auto
  then show ?thesis by (auto simp: digit_val_def)
qed

lemma digits_val_snoc: "digits_val (s @ [c]) = 10 * digits_val s + digit_val c"
  by (simp add: digits_val_def)

lemma digits_of_all_digits: "list_all is_digit (digits_of n)"
  by (induction n rule: digits_of.induct) (subst digits_of.simps, simp add: digit_char_is_digit)

lemma digits_of_nonempty: "digits_of n \<noteq> []"
  by (subst digits_of.simps) simp

lemma digits_val_digits_of: "digits_val (digits_of n) = n"
proof (induction n rule: digits_of.induct)
  case (1 n)
  show ?case
  proof (cases "n < 10")
    case True
    then show ?thesis
      by (subst digits_of.simps) (simp add: digits_val_def digit_val_digit_char)
  next
    case False
    with 1 have "digits_val (digits_of (n div 10)) = n div 10" by simp
    with False show ?thesis
      by (subst digits_of.simps) (simp add: digits_val_snoc digit_val_digit_char)
  qed
qed

lemma int_of_digits_digits_of: "int_of_digits (digits_of n) = Some n"
  by (simp add: int_of_digits_def digits_of_all_digits digits_of_nonempty digits_val_digits_of)

lemma length_digits_of_4:
  assumes "1000 \<le> n" "n < 10000"
  shows "length (digits_of n) = 4"
proof -
  from assms have b: "\<not> n < 10" "\<not> n div 10 < 10" "\<not> n div 10 div 10 < 10"
      "n div 10 div 10 div 10 < 10"
    by auto
  then show ?thesis
    by (simp add: digits_of.simps [of n] digits_of.simps [of "n div 10"]
        digits_of.simps [of "n div 10 div 10"] digits_of.simps [of "n div 10 div 10 div 10"])
qed

lemma round_half_even_nat: "round_half_even (real n) = n"
  by (simp add: round_half_even_def)

lemma format_year:
  "1000 \<le> n \<Longrightarrow> n < 10000 \<Longrightarrow> format_f False 4 0 (Fl (real n)) = digits_of n"
  by (simp add: format_f_def fixed_digits_def round_half_even_nat length_digits_of_4)

lemma is_digit_not_special:
  "is_digit c \<Longrightarrow> c \<noteq> CHR ''e'' \<and> c \<noteq> CHR ''E'' \<and> c \<noteq> CHR ''-'' \<and> c \<noteq> CHR ''+''"
  by (auto simp: is_digit_def)

lemma takeWhile_all: "list_all P s \<Longrightarrow> takeWhile P s = s \<and> dropWhile P s = []"
  by (induction s) auto

lemma float_of_digits:
  assumes "s \<noteq> []" "list_all is_digit s"
  shows "float_of_string s = Some (Fl (real (digits_val s)))"
proof -
  from assms obtain c cs where s: "s = c # cs" by (cases s) auto
  with assms have c: "c \<noteq> CHR ''-''" "c \<noteq> CHR ''+''" by (auto dest: is_digit_not_special)
  then have sg: "split_sign s = (False, s)" by (simp add: split_sign_def s)
  have ne: "list_all (\<lambda>c. c \<noteq> CHR ''e'' \<and> c \<noteq> CHR ''E'') s"
    using assms(2) by (induction s) (auto dest: is_digit_not_special)
  have m: "mantissa_of_string s = Some (real (digits_val s))"
    using assms by (simp add: mantissa_of_string_def takeWhile_all)
  have tw: "takeWhile (\<lambda>c. c \<noteq> CHR ''e'' \<and> c \<noteq> CHR ''E'') s = s"
    and dw: "dropWhile (\<lambda>c. c \<noteq> CHR ''e'' \<and> c \<noteq> CHR ''E'') s = []"
    using takeWhile_all [OF ne] by simp_all
  show ?thesis
    by (simp add: float_of_string_def sg m tw dw)
qed

lemma fge_Fl: "fge (Fl a) (Fl b) = (b \<le> a)"
  by (auto simp: fge_def)

lemma list_all_take: "list_all P s \<Longrightarrow> list_all P (take n s)"
  by (auto simp: list_all_iff dest: in_set_takeD)

lemma list_all_drop: "list_all P s \<Longrightarrow> list_all P (drop n s)"
  by (auto simp: list_all_iff dest: in_set_dropD)

lemma digits_val_two: "length s = 2 \<Longrightarrow> list_all is_digit s \<Longrightarrow> digits_val s < 100"
proof -
  assume a: "length s = 2" "list_all is_digit s"
  then obtain a b where s: "s = [a, b]"
    by (cases s) (auto simp: length_Suc_conv)
  have d: "\<And>c. is_digit c \<Longrightarrow> digit_val c < 10"
    by (auto simp: is_digit_def digit_val_def)
  from a s have "digit_val a < 10" "digit_val b < 10" by (auto intro: d)
  then show ?thesis by (simp add: s digits_val_def)
qed

text \<open>
  Claim C10. A date token of six digits is resolved with the pivot 90: a prefix of at
  least 90 is a year of the twentieth century, a smaller one a year of the
  twenty-first. The QFIT adapter and the icessn adapter return the same year, month and
  day, and the year that the driver writes into the name of the output file is the
  decimal rendering of that year.
\<close>

theorem two_digit_year_pivot:
  assumes "length YYMMDD = 6" and "list_all is_digit YYMMDD"
  shows "(let ypre = digits_val (take 2 YYMMDD);
              year = (if 90 \<le> ypre then 1900 + ypre else 2000 + ypre);
              month = take 2 (drop 2 YYMMDD);
              day = drop 4 YYMMDD
          in read_ATM_qfit_file_date YYMMDD = Inr (year, digits_val month, digits_val day)
             \<and> read_ATM_icessn_file_date YYMMDD = Inr (year, digits_val month, digits_val day)
             \<and> output_date_tokens YYMMDD = Inr (digits_of year, month, day)
             \<and> int_of_digits (digits_of year) = Some year)"
proof -
  define ypre where "ypre = digits_val (take 2 YYMMDD)"
  define year where "year = (if 90 \<le> ypre then 1900 + ypre else 2000 + ypre)"
  have t: "take 2 YYMMDD \<noteq> []" "take 2 (drop 2 YYMMDD) \<noteq> []" "drop 4 YYMMDD \<noteq> []"
    using assms(1) by auto
  have d: "list_all is_digit (take 2 YYMMDD)" "list_all is_digit (take 2 (drop 2 YYMMDD))"
      "list_all is_digit (drop 4 YYMMDD)"
    using assms(2) by (simp_all add: list_all_take list_all_drop)
  have i: "int_of_digits (take 2 YYMMDD) \<noteq> None" "int_of_digits (take 2 (drop 2 YYMMDD)) \<noteq> None"
      "int_of_digits (drop 4 YYMMDD) \<noteq> None"
    using t d by (simp_all add: int_of_digits_def)
  have arr: "int_array [take 2 YYMMDD, take 2 (drop 2 YYMMDD), drop 4 YYMMDD] =
      Inr [ypre, digits_val (take 2 (drop 2 YYMMDD)), digits_val (drop 4 YYMMDD)]"
    using i by (simp add: int_array_def ypre_def)
  have q: "read_ATM_qfit_file_date YYMMDD =
      Inr (year, digits_val (take 2 (drop 2 YYMMDD)), digits_val (drop 4 YYMMDD))"
    using assms(1) by (simp add: read_ATM_qfit_file_date_def arr year_def)
  have n: "read_ATM_icessn_file_date YYMMDD =
      Inr (year, digits_val (take 2 (drop 2 YYMMDD)), digits_val (drop 4 YYMMDD))"
    using assms(1) by (simp add: read_ATM_icessn_file_date_def arr year_def)
  have y: "ypre < 100"
    using assms(1) d(1) by (simp add: ypre_def digits_val_two)
  have f: "float_of_string (take 2 YYMMDD) = Some (Fl (real ypre))"
    using t(1) d(1) by (simp add: float_of_digits ypre_def)
  have hi: "format_f False 4 0 (Fl (real ypre + 1900)) = digits_of (1900 + ypre)"
    using y format_year [of "1900 + ypre"] by (simp add: add.commute)
  have lo: "format_f False 4 0 (Fl (real ypre + 2000)) = digits_of (2000 + ypre)"
    using y format_year [of "2000 + ypre"] by (simp add: add.commute)
  have o: "output_date_tokens YYMMDD =
      Inr (digits_of year, take 2 (drop 2 YYMMDD), drop 4 YYMMDD)"
    using assms(1) by (simp add: output_date_tokens_def f fge_Fl hi lo year_def Let_def)
  have r: "int_of_digits (digits_of year) = Some year"
    by (rule int_of_digits_digits_of)
  from q n o r show ?thesis
    unfolding Let_def ypre_def [symmetric] year_def [symmetric] by simp
qed

lemmas decimal_eval = int_of_digits_def digits_val_def digit_val_def is_digit_def

theorem two_digit_year_pivot_witness:
  "read_ATM_qfit_file_date ''930321'' = Inr (1993, 3, 21)
   \<and> read_ATM_icessn_file_date ''930321'' = Inr (1993, 3, 21)
   \<and> output_date_tokens ''930321'' = Inr (''1993'', ''03'', ''21'')
   \<and> read_ATM_qfit_file_date ''090715'' = Inr (2009, 7, 15)
   \<and> read_ATM_icessn_file_date ''090715'' = Inr (2009, 7, 15)
   \<and> output_date_tokens ''090715'' = Inr (''2009'', ''07'', ''15'')"
  using two_digit_year_pivot [of "''930321''"] two_digit_year_pivot [of "''090715''"]
  by (simp add: decimal_eval digits_of.simps Let_def)

lemmas float_eval = np_float64_def float_of_string_def split_sign_def mantissa_of_string_def
  exponent_of_string_def

lemmas format_eval = format_f_def fixed_digits_def round_half_even_def digits_of.simps



section \<open>The subsetter\<close>






lemma in_range_0_2_5: "6 \<le> length val \<Longrightarrow> list_all (\<lambda>i. i < length val) [0, 1, 2, 5]"
  by auto

lemma select_0_2_5: "select val [0, 1, 2, 5] = [val ! 0, val ! 1, val ! 2, val ! 5]"
  by (simp add: select_def)









section \<open>Hemisphere flags of the adapters\<close>

lemma count_nonzero_map: "count_nonzero (map P xs) = length (filter P xs)"
  by (simp add: count_nonzero_def filter_map comp_def)

lemma count_nonzero_pos: "0 < count_nonzero (map P xs) \<longleftrightarrow> list_ex P xs"
  by (simp add: count_nonzero_map list_ex_iff filter_empty_conv)

lemma count_nonzero_zero: "count_nonzero (map P xs) = 0 \<longleftrightarrow> \<not> list_ex P xs"
  by (simp add: count_nonzero_map list_ex_iff filter_empty_conv)

lemma ATM_hemisphere_cases:
  "ATM_hemisphere lat =
     (if list_ex (\<lambda>x. fge x (Fl 0)) lat \<and> \<not> list_ex (\<lambda>x. flt x (Fl 0)) lat then Inr North
      else if list_ex (\<lambda>x. flt x (Fl 0)) lat \<and> \<not> list_ex (\<lambda>x. fge x (Fl 0)) lat then Inr South
      else Inl ValueError)"
  by (simp add: ATM_hemisphere_def hemisphere_counts_def count_nonzero_zero count_nonzero_pos)

lemma ATM_hemisphere_majority:
  assumes "ATM_hemisphere lat = Inr HEM"
  shows "HEM = majority_hemisphere lat"
proof -
  let ?n = "count_nonzero (map (\<lambda>x. fge x (Fl 0)) lat)"
  let ?s = "count_nonzero (map (\<lambda>x. flt x (Fl 0)) lat)"
  from assms consider (north) "HEM = North" "?n \<noteq> 0" "?s = 0" | (south) "HEM = South" "?n = 0" "?s \<noteq> 0"
    unfolding ATM_hemisphere_cases count_nonzero_zero [symmetric] count_nonzero_pos [symmetric]
    by (auto split: if_splits)
  then show ?thesis
    by cases (simp_all add: majority_hemisphere_def)
qed

text \<open>
  Claim C8, as the code has it. The ATM adapters return the northern flag when some
  latitude is \<^verbatim>\<open>>= 0.0\<close> and none is \<^verbatim>\<open>< 0.0\<close>, the southern flag when some latitude
  is \<^verbatim>\<open>< 0.0\<close> and none is \<^verbatim>\<open>>= 0.0\<close>, and raise \<^verbatim>\<open>ValueError\<close> in every other case:
  latitudes of both signs, or no latitude that compares with zero. A flag that is
  returned is the one of all counted points, hence of the majority. The flag is taken
  from the latitudes that the subsetter selected. The LVIS adapter returns the flag of
  the region token of the file name, \<^verbatim>\<open>GL\<close> or \<^verbatim>\<open>AQ\<close>, and raises \<^verbatim>\<open>KeyError\<close> for
  any other token.
\<close>

theorem hemisphere_of_adapters:
  "ATM_hemisphere lat =
     (if list_ex (\<lambda>x. fge x (Fl 0)) lat \<and> \<not> list_ex (\<lambda>x. flt x (Fl 0)) lat then Inr North
      else if list_ex (\<lambda>x. flt x (Fl 0)) lat \<and> \<not> list_ex (\<lambda>x. fge x (Fl 0)) lat then Inr South
      else Inl ValueError)
   \<and> (\<forall>HEM. ATM_hemisphere lat = Inr HEM \<longrightarrow> HEM = majority_hemisphere lat)
   \<and> (\<forall>d n HEM. ATM_finish ATM_input size_in_file input_subsetter = Inr (d, n, HEM) \<longrightarrow>
        (\<exists>sel. getitem d ''lat'' = Inr sel \<and> ATM_hemisphere sel = Inr HEM))
   \<and> lvis_flag REGION =
        (if REGION = ''GL'' then Inr North else if REGION = ''AQ'' then Inr South else Inl KeyError)
   \<and> (\<forall>d n HEM. read_LVIS_HDF5_file RLD REGION shots input_subsetter = Inr (d, n, HEM) \<longrightarrow>
        lvis_flag REGION = Inr HEM)"
proof -
  have a: "\<forall>d n HEM. ATM_finish ATM_input size_in_file input_subsetter = Inr (d, n, HEM) \<longrightarrow>
        (\<exists>sel. getitem d ''lat'' = Inr sel \<and> ATM_hemisphere sel = Inr HEM)"
    by (auto simp: ATM_finish_def split: sum.splits)
  have l: "\<forall>d n HEM. read_LVIS_HDF5_file RLD REGION shots input_subsetter = Inr (d, n, HEM) \<longrightarrow>
        lvis_flag REGION = Inr HEM"
    by (auto simp: read_LVIS_HDF5_file_def Let_def split: sum.splits)
  from a l ATM_hemisphere_cases [of lat] ATM_hemisphere_majority [of lat] show ?thesis
    by (simp add: lvis_flag_def)
qed

lemmas hemisphere_eval = ATM_hemisphere_def hemisphere_counts_def count_nonzero_def fge_def
  majority_hemisphere_def

theorem hemisphere_of_adapters_witness:
  "ATM_hemisphere [Fl 69, Fl 70] = Inr North
   \<and> ATM_hemisphere [Fl (- 75), Fl (- 76), Fl (- 77)] = Inr South
   \<and> majority_hemisphere [Fl (- 75), Fl (- 76), Fl (- 77)] = South
   \<and> lvis_flag ''GL'' = Inr North \<and> lvis_flag ''AQ'' = Inr South"
  using hemisphere_of_adapters [of "[Fl 69, Fl 70]" "[]" 0 None "''GL''" "''R1808''" "[]"]
    hemisphere_of_adapters [of "[Fl (- 75), Fl (- 76), Fl (- 77)]" "[]" 0 None "''AQ''" "''R1808''" "[]"]
  by (simp add: hemisphere_eval)

text \<open>
  The claim as stated fails on a track with two northern shots and one southern shot:
  the majority is northern, and the adapter raises \<^verbatim>\<open>ValueError\<close>.
\<close>

theorem hemisphere_majority_counterexample:
  "list_ex (\<lambda>x. fge x (Fl 0)) [Fl 10, Fl 20, Fl (- 5)]
   \<and> list_ex (\<lambda>x. flt x (Fl 0)) [Fl 10, Fl 20, Fl (- 5)]
   \<and> majority_hemisphere [Fl 10, Fl 20, Fl (- 5)] = North
   \<and> ATM_hemisphere [Fl 10, Fl 20, Fl (- 5)] = Inl ValueError
   \<and> ATM_finish [(''lat'', [Fl 10, Fl 20, Fl (- 5)])] 3 None = Inl ValueError"
  by (simp add: hemisphere_eval ATM_finish_def apply_subsetter_def getitem_def)

section \<open>Flat returns of the LVIS adapter\<close>

lemma feq_not_NaN: "feq a b \<Longrightarrow> a \<noteq> NaN \<and> b \<noteq> NaN \<and> a = b"
  by (cases a; cases b) auto

lemma sqrt_mean_square: "sqrt ((x * x + x * x) / 2) = \<bar>x\<bar>" for x :: real
  by simp

lemma error_flat:
  assumes "feq (fi_elev_low f) (fi_elev_high f)" and "fi_elev_low f = Fl a" and "fi_elev f = Fl c"
  shows "pt_error (lvis_point_of f) = Fl \<bar>a - c\<bar>"
proof -
  from assms(1,2) have h: "fi_elev_high f = Fl a"
    using feq_not_NaN by fastforce
  show ?thesis
    by (simp add: lvis_point_of_def Let_def assms(2,3) h fsub_def)
qed

text \<open>
  Claim C3, as the code has it. Where the low and the high elevation of a shot are
  equal, the adapter returns the low elevation as the data value, and the low latitude
  and longitude as the position: none of them goes through the ratio of the waveform
  heights, and the data value is not NaN. The uncertainty is computed from the centroid
  elevation of the file (legacy schema) or from the low elevation plus \<^verbatim>\<open>RH50\<close>
  (newer schema): in exact arithmetic it is the distance between the low elevation and
  that centroid, respectively the magnitude of \<^verbatim>\<open>RH50\<close>, and it is zero only when
  the two agree.
\<close>

theorem lvis_flat_return:
  assumes "feq (Elevation_Low s) (Elevation_High s)"
  shows "pt_data (lvis_point_of (file_input_of v s)) = Elevation_Low s
     \<and> pt_lat (lvis_point_of (file_input_of v s)) = Latitude_Low s
     \<and> pt_lon (lvis_point_of (file_input_of v s)) = Longitude_Low s
     \<and> \<not> isnan (pt_data (lvis_point_of (file_input_of v s)))
     \<and> (\<forall>a c. v = LDS_1_04 \<and> Elevation_Low s = Fl a \<and> Elevation_Centroid s = Fl c \<longrightarrow>
           pt_error (lvis_point_of (file_input_of v s)) = Fl \<bar>a - c\<bar>)
     \<and> (\<forall>a r. v = LDS_2_0_2 \<and> Elevation_Low s = Fl a \<and> RH50 s = Fl r \<longrightarrow>
           pt_error (lvis_point_of (file_input_of v s)) = Fl \<bar>r\<bar>)"
proof -
  have lo: "fi_elev_low (file_input_of v s) = Elevation_Low s"
    and hi: "fi_elev_high (file_input_of v s) = Elevation_High s"
    and la: "fi_lat_low (file_input_of v s) = Latitude_Low s"
    and ln: "fi_lon_low (file_input_of v s) = Longitude_Low s"
    by (cases v; simp add: file_input_of_def)+
  have ii: "feq (fi_elev_low (file_input_of v s)) (fi_elev_high (file_input_of v s))"
    using assms by (simp add: lo hi)
  have d: "pt_data (lvis_point_of (file_input_of v s)) = Elevation_Low s"
    and t: "pt_lat (lvis_point_of (file_input_of v s)) = Latitude_Low s"
    and n: "pt_lon (lvis_point_of (file_input_of v s)) = Longitude_Low s"
    using ii by (simp_all add: lvis_point_of_def Let_def lo la ln)
  have nn: "\<not> isnan (pt_data (lvis_point_of (file_input_of v s)))"
    using assms feq_not_NaN [of "Elevation_Low s" "Elevation_High s"] by (simp add: d isnan_def)
  have e1: "pt_error (lvis_point_of (file_input_of v s)) = Fl \<bar>a - c\<bar>"
    if "v = LDS_1_04" "Elevation_Low s = Fl a" "Elevation_Centroid s = Fl c" for a c
    using that ii by (intro error_flat) (simp_all add: file_input_of_def)
  have e2: "pt_error (lvis_point_of (file_input_of v s)) = Fl \<bar>r\<bar>"
    if "v = LDS_2_0_2" "Elevation_Low s = Fl a" "RH50 s = Fl r" for a r
  proof -
    have "pt_error (lvis_point_of (file_input_of v s)) = Fl \<bar>a - (a + r)\<bar>"
      using that ii by (intro error_flat) (simp_all add: file_input_of_def)
    then show ?thesis by simp
  qed
  from d t n nn e1 e2 show ?thesis by blast
qed

theorem lvis_flat_return_witness:
  "pt_data (lvis_point_of (file_input_of LDS_2_0_2
      \<lparr>Elevation_Centroid = NaN, Elevation_Low = Fl 100, Elevation_High = Fl 100,
       Latitude_Centroid = NaN, Latitude_Low = Fl 70, Latitude_Top = Fl 70,
       Longitude_Centroid = NaN, Longitude_Low = Fl 10, Longitude_Top = Fl 10,
       RH50 = Fl 0, RH100 = Fl 0, J2000 = Fl 5\<rparr>)) = Fl 100
   \<and> pt_error (lvis_point_of (file_input_of LDS_2_0_2
      \<lparr>Elevation_Centroid = NaN, Elevation_Low = Fl 100, Elevation_High = Fl 100,
       Latitude_Centroid = NaN, Latitude_Low = Fl 70, Latitude_Top = Fl 70,
       Longitude_Centroid = NaN, Longitude_Low = Fl 10, Longitude_Top = Fl 10,
       RH50 = Fl 0, RH100 = Fl 0, J2000 = Fl 5\<rparr>)) = Fl 0
   \<and> fi_lat (file_input_of LDS_2_0_2
      \<lparr>Elevation_Centroid = NaN, Elevation_Low = Fl 100, Elevation_High = Fl 100,
       Latitude_Centroid = NaN, Latitude_Low = Fl 70, Latitude_Top = Fl 70,
       Longitude_Centroid = NaN, Longitude_Low = Fl 10, Longitude_Top = Fl 10,
       RH50 = Fl 0, RH100 = Fl 0, J2000 = Fl 5\<rparr>) = NaN
   \<and> pt_lat (lvis_point_of (file_input_of LDS_2_0_2
      \<lparr>Elevation_Centroid = NaN, Elevation_Low = Fl 100, Elevation_High = Fl 100,
       Latitude_Centroid = NaN, Latitude_Low = Fl 70, Latitude_Top = Fl 70,
       Longitude_Centroid = NaN, Longitude_Low = Fl 10, Longitude_Top = Fl 10,
       RH50 = Fl 0, RH100 = Fl 0, J2000 = Fl 5\<rparr>)) = Fl 70"
proof -
  let ?s = "\<lparr>Elevation_Centroid = NaN, Elevation_Low = Fl 100, Elevation_High = Fl 100,
       Latitude_Centroid = NaN, Latitude_Low = Fl 70, Latitude_Top = Fl 70,
       Longitude_Centroid = NaN, Longitude_Low = Fl 10, Longitude_Top = Fl 10,
       RH50 = Fl 0, RH100 = Fl 0, J2000 = Fl 5\<rparr>"
  have h: "feq (Elevation_Low ?s) (Elevation_High ?s)" by simp
  have n: "fi_lat (file_input_of LDS_2_0_2 ?s) = NaN"
    by (simp add: file_input_of_def fsub_def)
  from lvis_flat_return [OF h, of LDS_2_0_2] n show ?thesis
    by simp
qed

text \<open>
  The claim as stated fails on a shot of a legacy file with a single detected mode at
  100 m, whose waveform centroid lies at 101 m: the data value is 100 and the
  uncertainty is 1.
\<close>

theorem lvis_flat_uncertainty_counterexample:
  "feq (Elevation_Low \<lparr>Elevation_Centroid = Fl 101, Elevation_Low = Fl 100, Elevation_High = Fl 100,
       Latitude_Centroid = Fl 70, Latitude_Low = Fl 70, Latitude_Top = NaN,
       Longitude_Centroid = Fl 10, Longitude_Low = Fl 10, Longitude_Top = NaN,
       RH50 = NaN, RH100 = NaN, J2000 = Fl 5\<rparr>) (Fl 100)
   \<and> feq (Elevation_High \<lparr>Elevation_Centroid = Fl 101, Elevation_Low = Fl 100, Elevation_High = Fl 100,
       Latitude_Centroid = Fl 70, Latitude_Low = Fl 70, Latitude_Top = NaN,
       Longitude_Centroid = Fl 10, Longitude_Low = Fl 10, Longitude_Top = NaN,
       RH50 = NaN, RH100 = NaN, J2000 = Fl 5\<rparr>) (Fl 100)
   \<and> pt_data (lvis_point_of (file_input_of LDS_1_04
      \<lparr>Elevation_Centroid = Fl 101, Elevation_Low = Fl 100, Elevation_High = Fl 100,
       Latitude_Centroid = Fl 70, Latitude_Low = Fl 70, Latitude_Top = NaN,
       Longitude_Centroid = Fl 10, Longitude_Low = Fl 10, Longitude_Top = NaN,
       RH50 = NaN, RH100 = NaN, J2000 = Fl 5\<rparr>)) = Fl 100
   \<and> pt_error (lvis_point_of (file_input_of LDS_1_04
      \<lparr>Elevation_Centroid = Fl 101, Elevation_Low = Fl 100, Elevation_High = Fl 100,
       Latitude_Centroid = Fl 70, Latitude_Low = Fl 70, Latitude_Top = NaN,
       Longitude_Centroid = Fl 10, Longitude_Low = Fl 10, Longitude_Top = NaN,
       RH50 = NaN, RH100 = NaN, J2000 = Fl 5\<rparr>)) = Fl 1
   \<and> Fl 1 \<noteq> Fl 0"
  by (simp add: file_input_of_def lvis_point_of_def fsub_def)

section \<open>Geospatial ranges of the output\<close>

lemma fmin2_Fl: "fmin2 (Fl a) (Fl b) = Fl (min a b)"
  by (auto simp: fmin2_def isnan_def)

lemma fmax2_Fl: "fmax2 (Fl a) (Fl b) = Fl (max a b)"
  by (auto simp: fmax2_def isnan_def)

lemma foldl_fmin2_Fl: "foldl fmin2 (Fl a) (map Fl xs) = Fl (Min (set (a # xs)))"
proof (induction xs arbitrary: a)
  case Nil
  show ?case by simp
next
  case (Cons x xs)
  have "Min (insert (min a x) (set xs)) = Min (insert a (insert x (set xs)))"
    by (cases "xs = []") (simp_all add: min.assoc)
  with Cons [of "min a x"] show ?case
    by (simp add: fmin2_Fl)
qed

lemma foldl_fmax2_Fl: "foldl fmax2 (Fl a) (map Fl xs) = Fl (Max (set (a # xs)))"
proof (induction xs arbitrary: a)
  case Nil
  show ?case by simp
next
  case (Cons x xs)
  have "Max (insert (max a x) (set xs)) = Max (insert a (insert x (set xs)))"
    by (cases "xs = []") (simp_all add: max.assoc)
  with Cons [of "max a x"] show ?case
    by (simp add: fmax2_Fl)
qed

lemma np_min_Fl: "xs \<noteq> [] \<Longrightarrow> np_min (map Fl xs) = Inr (Fl (Min (set xs)))"
  by (cases xs) (simp_all add: foldl_fmin2_Fl)

lemma np_max_Fl: "xs \<noteq> [] \<Longrightarrow> np_max (map Fl xs) = Inr (Fl (Max (set xs)))"
  by (cases xs) (simp_all add: foldl_fmax2_Fl)

lemma icebridge_geospatial_Fl:
  assumes "lats \<noteq> []" and "lons \<noteq> []"
  shows "icebridge_geospatial (map Fl lats) (map Fl lons) =
     Inr (Fl (Min (set lats)), Fl (Max (set lats)), Fl (Min (set lons)), Fl (Max (set lons)))"
  using assms by (simp add: icebridge_geospatial_def np_min_Fl np_max_Fl)

lemma lower_Fl: "lower (Fl a) (Fl b) = Fl (min a b)"
  by (auto simp: lower_def)

lemma higher_Fl: "higher (Fl a) (Fl b) = Fl (max a b)"
  by (auto simp: higher_def fgt_def)

lemma lower_seen:
  assumes "xs \<noteq> []"
  shows "lower (Fl (Min (set xs))) (seen_min ys) = seen_min (ys @ xs)"
proof (cases "ys = []")
  case True
  with assms show ?thesis by (simp add: seen_min_def lower_def)
next
  case False
  with assms have "Min (set ys \<union> set xs) = min (Min (set ys)) (Min (set xs))"
    by (intro Min_Un) simp_all
  with False assms show ?thesis
    by (simp add: seen_min_def lower_Fl min.commute)
qed

lemma higher_seen:
  assumes "xs \<noteq> []"
  shows "higher (Fl (Max (set xs))) (seen_max ys) = seen_max (ys @ xs)"
proof (cases "ys = []")
  case True
  with assms show ?thesis by (simp add: seen_max_def higher_def fgt_def)
next
  case False
  with assms have "Max (set ys \<union> set xs) = max (Max (set ys)) (Max (set xs))"
    by (intro Max_Un) simp_all
  with False assms show ?thesis
    by (simp add: seen_max_def higher_Fl max.commute)
qed

lemma np_min_nonempty: "xs \<noteq> [] \<Longrightarrow> \<exists>v. np_min xs = Inr v"
  by (cases xs) simp_all

lemma np_max_nonempty: "xs \<noteq> [] \<Longrightarrow> \<exists>v. np_max xs = Inr v"
  by (cases xs) simp_all

lemma ranges_step_finite:
  assumes "finite_group g lons lats"
  shows "\<exists>r'. ranges_step g r = Inr r'
     \<and> lnmn r' = lower (Fl (Min (set lons))) (lnmn r)
     \<and> lnmx r' = higher (Fl (Max (set lons))) (lnmx r)
     \<and> ltmn r' = lower (Fl (Min (set lats))) (ltmn r)
     \<and> ltmx r' = higher (Fl (Max (set lats))) (ltmx r)"
proof -
  let ?valid = "filter (\<lambda>t. fne t (g_delta_time_fill g)) (concat (g_delta_time g))"
  from assms have "?valid \<noteq> []"
    by (auto simp: finite_group_def list_ex_iff filter_empty_conv)
  then obtain t0 t1 where t: "np_min ?valid = Inr t0" "np_max ?valid = Inr t1"
    using np_min_nonempty np_max_nonempty by blast
  from assms have c: "np_min (g_longitude g) = Inr (Fl (Min (set lons)))"
      "np_max (g_longitude g) = Inr (Fl (Max (set lons)))"
      "np_min (g_latitude g) = Inr (Fl (Min (set lats)))"
      "np_max (g_latitude g) = Inr (Fl (Max (set lats)))"
    by (simp_all add: finite_group_def np_min_Fl np_max_Fl)
  show ?thesis
    by (simp add: ranges_step_def Let_def t c)
qed

lemma fold_ranges_finite:
  assumes "list_all2 (\<lambda>g (lons, lats). finite_group g lons lats) pairs coords"
    and "lnmn r = seen_min slon" and "lnmx r = seen_max slon"
    and "ltmn r = seen_min slat" and "ltmx r = seen_max slat"
  shows "\<exists>r'. fold_err ranges_step pairs r = Inr r'
     \<and> lnmn r' = seen_min (slon @ concat (map fst coords))
     \<and> lnmx r' = seen_max (slon @ concat (map fst coords))
     \<and> ltmn r' = seen_min (slat @ concat (map snd coords))
     \<and> ltmx r' = seen_max (slat @ concat (map snd coords))"
  using assms
proof (induction pairs coords arbitrary: r slon slat rule: list_all2_induct)
  case Nil
  then show ?case by simp
next
  case (Cons g pairs c coords)
  obtain lons lats where c: "c = (lons, lats)" by (cases c)
  with Cons.hyps(1) have fg: "finite_group g lons lats" by simp
  then have ne: "lons \<noteq> []" "lats \<noteq> []" by (simp_all add: finite_group_def)
  from ranges_step_finite [OF fg, of r] obtain r1 where r1: "ranges_step g r = Inr r1"
      "lnmn r1 = lower (Fl (Min (set lons))) (lnmn r)"
      "lnmx r1 = higher (Fl (Max (set lons))) (lnmx r)"
      "ltmn r1 = lower (Fl (Min (set lats))) (ltmn r)"
      "ltmx r1 = higher (Fl (Max (set lats))) (ltmx r)"
    by blast
  have s: "lnmn r1 = seen_min (slon @ lons)" "lnmx r1 = seen_max (slon @ lons)"
      "ltmn r1 = seen_min (slat @ lats)" "ltmx r1 = seen_max (slat @ lats)"
    using r1 Cons.prems ne by (simp_all add: lower_seen higher_seen)
  from Cons.IH [OF s] r1(1) show ?case
    by (simp add: c)
qed


text \<open>
  Claim C2, as the code has it. The geospatial attributes are the minimum and the
  maximum over all points: for the airborne product over the latitudes and longitudes
  of the track that the adapter returned, for the repeat-track product over the
  along-track latitudes and longitudes of all beam pairs. No mask and no fill value
  restricts them. The statement is for finite coordinates; for the repeat-track product
  each beam pair holds a delta time other than the fill value, without which the
  temporal range of the same loop raises \<^verbatim>\<open>ValueError\<close>.
\<close>

theorem geospatial_ranges_over_all_points:
  assumes "lats \<noteq> []" and "lons \<noteq> []"
    and "pairs \<noteq> []"
    and "list_all2 (\<lambda>g (lons, lats). finite_group g lons lats) pairs coords"
  shows "icebridge_geospatial (map Fl lats) (map Fl lons) =
           Inr (Fl (Min (set lats)), Fl (Max (set lats)), Fl (Min (set lons)), Fl (Max (set lons)))
     \<and> (\<exists>r. ICESat2_ranges pairs = Inr r
           \<and> ltmn r = Fl (Min (set (concat (map snd coords))))
           \<and> ltmx r = Fl (Max (set (concat (map snd coords))))
           \<and> lnmn r = Fl (Min (set (concat (map fst coords))))
           \<and> lnmx r = Fl (Max (set (concat (map fst coords)))))"
proof -
  let ?r0 = "\<lparr>lnmn = PInf, lnmx = NInf, ltmn = PInf, ltmx = NInf, tmn = PInf, tmx = NInf\<rparr>"
  have i: "lnmn ?r0 = seen_min []" "lnmx ?r0 = seen_max []" "ltmn ?r0 = seen_min []"
      "ltmx ?r0 = seen_max []"
    by (simp_all add: seen_min_def seen_max_def)
  from fold_ranges_finite [OF assms(4) i] obtain r where r: "ICESat2_ranges pairs = Inr r"
      "lnmn r = seen_min (concat (map fst coords))" "lnmx r = seen_max (concat (map fst coords))"
      "ltmn r = seen_min (concat (map snd coords))" "ltmx r = seen_max (concat (map snd coords))"
    unfolding ICESat2_ranges_def by auto
  from assms(3,4) obtain g pairs' c coords' where p: "pairs = g # pairs'" "coords = c # coords'"
      "finite_group g (fst c) (snd c)"
    by (cases pairs; cases coords) auto
  then have ne: "concat (map fst coords) \<noteq> []" "concat (map snd coords) \<noteq> []"
    by (simp_all add: finite_group_def)
  from r ne icebridge_geospatial_Fl [OF assms(1,2)] show ?thesis
    by (simp add: seen_min_def seen_max_def)
qed

lemmas ranges_eval = ICESat2_ranges_def ranges_step_def lower_def higher_def fgt_def fne_def
  fmin2_def fmax2_def isnan_def

theorem geospatial_ranges_over_all_points_witness:
  "icebridge_geospatial [Fl 70, Fl 80] [Fl 10, Fl 20] = Inr (Fl 70, Fl 80, Fl 10, Fl 20)
   \<and> (\<exists>r. ICESat2_ranges
          [\<lparr>g_longitude = [Fl 10, Fl 20], g_latitude = [Fl 70, Fl 80],
            g_delta_time = [[Fl 5], [Fl 9]], g_delta_time_fill = Fl 9\<rparr>,
           \<lparr>g_longitude = [Fl 30], g_latitude = [Fl 60],
            g_delta_time = [[Fl 6]], g_delta_time_fill = Fl 9\<rparr>] = Inr r
        \<and> ltmn r = Fl 60 \<and> ltmx r = Fl 80 \<and> lnmn r = Fl 10 \<and> lnmx r = Fl 30)"
proof -
  let ?g1 = "\<lparr>g_longitude = [Fl 10, Fl 20], g_latitude = [Fl 70, Fl 80],
            g_delta_time = [[Fl 5], [Fl 9]], g_delta_time_fill = Fl 9\<rparr>"
  let ?g2 = "\<lparr>g_longitude = [Fl 30], g_latitude = [Fl 60],
            g_delta_time = [[Fl 6]], g_delta_time_fill = Fl 9\<rparr>"
  have a: "[70, 80 :: real] \<noteq> []" "[10, 20 :: real] \<noteq> []" "[?g1, ?g2] \<noteq> []"
    by simp_all
  have b: "list_all2 (\<lambda>g (lons, lats). finite_group g lons lats) [?g1, ?g2]
      [([10, 20], [70, 80]), ([30], [60])]"
    by (simp add: finite_group_def fne_def)
  from geospatial_ranges_over_all_points [OF a b] show ?thesis
    by simp
qed

text \<open>
  The claim as stated fails in both drivers. A track of the airborne product with the
  latitudes 70 and 80, whose second point the model masks, is written with the
  sentinel at the second point and with the maximal latitude 80, where the maximum over
  the points that are not masked is 70. A beam pair of the repeat-track product with
  the latitudes 70 and 71, whose second reference point has no valid delta time, is
  written with the maximal latitude 71.
\<close>

theorem geospatial_ranges_counterexample:
  "icebridge_tide example_services OTIS 2 [Fl 3, Fl 4] [Fl 10, Fl 20] [Fl 70, Fl 80]
     = Inr ([Fl (7 / 2), Fl (- 9999)], [False, True])
   \<and> icebridge_geospatial [Fl 70, Fl 80] [Fl 10, Fl 20] = Inr (Fl 70, Fl 80, Fl 10, Fl 20)
   \<and> spec_geospatial [Fl 70, Fl 80] [Fl 10, Fl 20] [False, True] = Inr (Fl 70, Fl 70, Fl 10, Fl 10)
   \<and> tide_AT example_services OTIS (Fl 0) 2 1 [[Fl 5], [Fl 9]] (Fl 9) [Fl 10, Fl 20] [Fl 70, Fl 71]
        (Fl 999) (\<lambda>i c. Fl 0)
     = Inr ([[Fl (11 / 2)], [Fl 999]], [[False], [True]])
   \<and> ICESat2_ranges [\<lparr>g_longitude = [Fl 10, Fl 20], g_latitude = [Fl 70, Fl 71],
        g_delta_time = [[Fl 5], [Fl 9]], g_delta_time_fill = Fl 9\<rparr>]
     = Inr \<lparr>lnmn = Fl 10, lnmx = Fl 20, ltmn = Fl 70, ltmx = Fl 71, tmn = Fl 5, tmx = Fl 5\<rparr>
   \<and> spec_geospatial [Fl 70, Fl 71] [Fl 10, Fl 20] [False, True] = Inr (Fl 70, Fl 70, Fl 10, Fl 10)"
proof -
  have a: "icebridge_tide example_services OTIS 2 [Fl 3, Fl 4] [Fl 10, Fl 20] [Fl 70, Fl 80]
     = Inr ([Fl (7 / 2), Fl (- 9999)], [False, True])"
    by code_simp
  have b: "icebridge_geospatial [Fl 70, Fl 80] [Fl 10, Fl 20] = Inr (Fl 70, Fl 80, Fl 10, Fl 20)"
    by (simp add: icebridge_geospatial_def ranges_eval)
  have c: "spec_geospatial [Fl 70, Fl 80] [Fl 10, Fl 20] [False, True]
      = Inr (Fl 70, Fl 70, Fl 10, Fl 10)"
    by (simp add: spec_geospatial_def unmasked_def icebridge_geospatial_def)
  have d: "tide_AT example_services OTIS (Fl 0) 2 1 [[Fl 5], [Fl 9]] (Fl 9) [Fl 10, Fl 20]
      [Fl 70, Fl 71] (Fl 999) (\<lambda>i c. Fl 0)
     = Inr ([[Fl (11 / 2)], [Fl 999]], [[False], [True]])"
    by code_simp
  have e: "ICESat2_ranges [\<lparr>g_longitude = [Fl 10, Fl 20], g_latitude = [Fl 70, Fl 71],
        g_delta_time = [[Fl 5], [Fl 9]], g_delta_time_fill = Fl 9\<rparr>]
     = Inr \<lparr>lnmn = Fl 10, lnmx = Fl 20, ltmn = Fl 70, ltmx = Fl 71, tmn = Fl 5, tmx = Fl 5\<rparr>"
    by (simp add: ranges_eval)
  have f: "spec_geospatial [Fl 70, Fl 71] [Fl 10, Fl 20] [False, True]
      = Inr (Fl 70, Fl 70, Fl 10, Fl 10)"
    by (simp add: spec_geospatial_def unmasked_def icebridge_geospatial_def)
  from a b c d e f show ?thesis by blast
qed

section \<open>Unknown model identifiers\<close>

lemma select_model_None_iff: "select_model (Some m) = None \<longleftrightarrow> m \<notin> set model_choices"
  by (simp add: select_model_def model_choices_def)

lemma select_model_no_default: "select_model None = None"
  by (simp add: select_model_def)

text \<open>
  Claim C7, as the code has it. An identifier outside the catalogue selects no branch of
  the chain. The main program of either driver rejects it when it parses the option
  \<^verbatim>\<open>--tide\<close>, before any file is touched. The driver functions themselves have no
  check: the airborne driver opens no input file and, when its argument parses, fails
  with \<^verbatim>\<open>UnboundLocalError\<close>; the repeat-track driver has read the input file when it
  fails with \<^verbatim>\<open>UnboundLocalError\<close> at the first beam pair.
\<close>

theorem unknown_model_failure:
  assumes "m \<notin> set model_choices"
  shows "select_model (Some m) = None
     \<and> main_ICESat2 svc (Some m) infile reader uninit_AT uninit_XT
         = ([], Inl ArgumentError)
     \<and> main_icebridge svc (Some m) args patterns files = ([], Inl ArgumentError)
     \<and> fst (compute_tides_icebridge_data svc arg (Some m) patterns files) = []
     \<and> ((\<exists>p. input_subsetter_of arg = Inr p) \<longrightarrow>
           compute_tides_icebridge_data svc arg (Some m) patterns files
             = ([], Inl UnboundLocalError))
     \<and> (\<forall>epoch p pairs. reader INPUT_FILE = Inr (epoch, p # pairs) \<longrightarrow>
           compute_tides_ICESat2 svc INPUT_FILE (Some m) reader uninit_AT uninit_XT
             = ([ReadInput INPUT_FILE], Inl UnboundLocalError))"
proof -
  from assms have n: "select_model (Some m) = None"
    by (simp add: select_model_None_iff)
  have a: "main_ICESat2 svc (Some m) infile reader uninit_AT uninit_XT
      = ([], Inl ArgumentError)"
    using assms by (simp add: main_ICESat2_def parse_tide_def)
  have b: "main_icebridge svc (Some m) args patterns files = ([], Inl ArgumentError)"
    using assms by (simp add: main_icebridge_def parse_tide_def)
  have c: "fst (compute_tides_icebridge_data svc arg (Some m) patterns files) = []"
    by (simp add: compute_tides_icebridge_data_def n split: sum.splits prod.splits)
  have d: "compute_tides_icebridge_data svc arg (Some m) patterns files
      = ([], Inl UnboundLocalError)"
    if "\<exists>p. input_subsetter_of arg = Inr p"
    using that by (auto simp: compute_tides_icebridge_data_def n)
  have e: "compute_tides_ICESat2 svc INPUT_FILE (Some m) reader uninit_AT uninit_XT
      = ([ReadInput INPUT_FILE], Inl UnboundLocalError)"
    if "reader INPUT_FILE = Inr (epoch, p # pairs)" for epoch p pairs
    using that by (simp add: compute_tides_ICESat2_def pair_tides_def n)
  from n a b c d e show ?thesis by blast
qed

theorem unknown_model_failure_witness:
  "main_ICESat2 example_services (Some ''FES2012'') [''/data/ATL11_000111_0306_002_01.h5'']
       (\<lambda>f. Inr (Fl 0, [example_pair])) (\<lambda>i c. Fl 0) (\<lambda>i. Fl 0)
     = ([], Inl ArgumentError)
   \<and> main_icebridge example_services (Some ''FES2012'')
       [''/data/ILATM2_20110321_123456_smooth_nadir3seg_50pt.csv'']
       (\<lambda>f. Some (ATM, ''20110321'', ''123456'')) (\<lambda>f. ATM_file [] 0)
     = ([], Inl ArgumentError)
   \<and> compute_tides_icebridge_data example_services
       ''/data/ILATM2_20110321_123456_smooth_nadir3seg_50pt.csv'' (Some ''FES2012'')
       (\<lambda>f. Some (ATM, ''20110321'', ''123456'')) (\<lambda>f. ATM_file [] 0)
     = ([], Inl UnboundLocalError)
   \<and> compute_tides_ICESat2 example_services ''/data/ATL11_000111_0306_002_01.h5''
       (Some ''FES2012'') (\<lambda>f. Inr (Fl 0, [example_pair])) (\<lambda>i c. Fl 0) (\<lambda>i. Fl 0)
     = ([ReadInput ''/data/ATL11_000111_0306_002_01.h5''], Inl UnboundLocalError)"
proof -
  have m: "''FES2012'' \<notin> set model_choices"
    by (simp add: model_choices_def)
  have "input_subsetter_of ''/data/ILATM2_20110321_123456_smooth_nadir3seg_50pt.csv''
      = Inr (''/data/ILATM2_20110321_123456_smooth_nadir3seg_50pt.csv'', None)"
    by code_simp
  then have p: "\<exists>p. input_subsetter_of ''/data/ILATM2_20110321_123456_smooth_nadir3seg_50pt.csv''
      = Inr p"
    by blast
  from unknown_model_failure [OF m, where svc = example_services
      and infile = "[''/data/ATL11_000111_0306_002_01.h5'']"
      and reader = "\<lambda>f. Inr (Fl 0, [example_pair])"
      and uninit_AT = "\<lambda>i c. Fl 0" and uninit_XT = "\<lambda>i. Fl 0"
      and args = "[''/data/ILATM2_20110321_123456_smooth_nadir3seg_50pt.csv'']"
      and patterns = "\<lambda>f. Some (ATM, ''20110321'', ''123456'')"
      and files = "\<lambda>f. ATM_file [] 0"
      and arg = "''/data/ILATM2_20110321_123456_smooth_nadir3seg_50pt.csv''"
      and INPUT_FILE = "''/data/ATL11_000111_0306_002_01.h5''"] p
  show ?thesis by simp
qed

text \<open>
  The claim as stated fails for the repeat-track driver called with an identifier
  outside the catalogue (or with its default \<^verbatim>\<open>None\<close>): the input file has been read
  when the run fails, and the failure is that of an unassigned variable.
\<close>

theorem unknown_model_counterexample:
  "''FES2012'' \<notin> set model_choices
   \<and> compute_tides_ICESat2 example_services ''/data/ATL11_000111_0306_002_01.h5''
       (Some ''FES2012'') (\<lambda>f. Inr (Fl 0, [example_pair])) (\<lambda>i c. Fl 0) (\<lambda>i. Fl 0)
     = ([ReadInput ''/data/ATL11_000111_0306_002_01.h5''], Inl UnboundLocalError)
   \<and> compute_tides_ICESat2 example_services ''/data/ATL11_000111_0306_002_01.h5''
       None (\<lambda>f. Inr (Fl 0, [example_pair])) (\<lambda>i c. Fl 0) (\<lambda>i. Fl 0)
     = ([ReadInput ''/data/ATL11_000111_0306_002_01.h5''], Inl UnboundLocalError)"
  by (simp add: model_choices_def compute_tides_ICESat2_def pair_tides_def select_model_def)

section \<open>Output file names are functions of the input\<close>

lemma literal_append: "literal p (p @ r) = Some r"
  by (simp add: literal_def)

lemma digits_append:
  "length d = n \<Longrightarrow> list_all is_digit d \<Longrightarrow> digits n (d @ r) = Some (d, r)"
  by (simp add: digits_def)

lemma lazy_aux_long:
  "lazy_aux acc (a # h # f # rest) =
     (if a \<noteq> newline \<and> h = CHR ''h'' \<and> f = CHR ''5'' \<and> at_end rest then Some (rev acc)
      else if a = newline then None
      else lazy_aux (a # acc) (h # f # rest))"
  by simp

lemma lazy_aux_tail:
  assumes "newline \<notin> set aux" and "c \<noteq> newline"
  shows "lazy_aux acc (aux @ c # ''h5'') = Some (rev acc @ aux)"
  using assms
proof (induction aux arbitrary: acc)
  case Nil
  then show ?case by (simp add: at_end_def)
next
  case (Cons a aux)
  then have a: "a \<noteq> newline" by auto
  obtain h f rest where r: "aux @ c # ''h5'' = h # f # rest" and "rest \<noteq> []" "last rest = CHR ''5''"
  proof (cases aux)
    case Nil
    then show ?thesis using that [of c "CHR ''h''" "''5''"] by simp
  next
    case (Cons x xs)
    show ?thesis
    proof (cases xs)
      case Nil
      with Cons show ?thesis using that [of x c "''h5''"] by simp
    next
      case (Cons y ys)
      with \<open>aux = x # xs\<close> show ?thesis using that [of x y "ys @ c # ''h5''"] by simp
    qed
  qed
  then have e: "\<not> at_end rest"
    by (auto simp: at_end_def newline_def)
  have "lazy_aux acc ((a # aux) @ c # ''h5'') = lazy_aux (a # acc) (aux @ c # ''h5'')"
    using a e by (simp add: r)
  also have "\<dots> = Some (rev (a # acc) @ aux)"
    using Cons by simp
  finally show ?case by simp
qed

lemma match_granule_at_name:
  assumes "granule_tokens g" and "c \<noteq> newline"
  shows "match_granule_at (granule_name g c) = Some g"
proof -
  from assms(1) obtain d where d: "PRD g = ''ATL'' @ d" "length d = 2" "list_all is_digit d"
    by (auto simp: granule_tokens_def)
  let ?rest = "''ATL'' @ d @ ''_'' @ TRK g @ GRAN g @ ''_'' @ SCYC g @ ECYC g @ ''_'' @ RL g
      @ ''_'' @ VERS g @ AUX g @ c # ''h5''"
  have n: "granule_name g c = SUB g @ ?rest"
    by (simp add: granule_name_def d)
  have p: "(case literal ''processed_'' (SUB g @ ?rest) of
      Some r \<Rightarrow> (''processed_'', r) | None \<Rightarrow> ([], SUB g @ ?rest)) = (SUB g, ?rest)"
  proof -
    from assms(1) consider "SUB g = []" | "SUB g = ''processed_''"
      by (auto simp: granule_tokens_def)
    then show ?thesis
    proof cases
      case 1
      then show ?thesis by (simp add: literal_def)
    next
      case 2
      then show ?thesis using literal_append [of "''processed_''" ?rest] by simp
    qed
  qed
  have t: "length (TRK g) = 4" "list_all is_digit (TRK g)" "length (GRAN g) = 2"
      "list_all is_digit (GRAN g)" "length (SCYC g) = 2" "list_all is_digit (SCYC g)"
      "length (ECYC g) = 2" "list_all is_digit (ECYC g)" "length (RL g) = 3"
      "list_all is_digit (RL g)" "length (VERS g) = 2" "list_all is_digit (VERS g)"
      "newline \<notin> set (AUX g)"
    using assms(1) by (simp_all add: granule_tokens_def)
  have l: "\<And>r. literal ''ATL'' (''ATL'' @ r) = Some r" "\<And>r. literal ''_'' (''_'' @ r) = Some r"
    by (rule literal_append)+
  show ?thesis
    unfolding match_granule_at_def n p
    by (simp only: l digits_append [OF d(2,3)] digits_append [OF t(1,2)] digits_append [OF t(3,4)]
        digits_append [OF t(5,6)] digits_append [OF t(7,8)] digits_append [OF t(9,10)]
        digits_append [OF t(11,12)] lazy_aux_tail [OF t(13) assms(2)]
        bind.bind_lunit prod.case Let_def d(1) [symmetric] rev.simps append_Nil)
      simp
qed


lemma rx_findall_name:
  assumes "granule_tokens g" and "c \<noteq> newline"
  shows "rx_findall (granule_name g c) = Some g"
proof -
  obtain x xs where n: "granule_name g c = x # xs"
    by (cases "granule_name g c") (simp_all add: granule_name_def)
  from match_granule_at_name [OF assms] show ?thesis
    by (simp add: n)
qed

lemma granule_name_head:
  assumes "granule_tokens g"
  shows "\<exists>t. granule_name g c = CHR ''A'' # t \<or> granule_name g c = CHR ''p'' # t"
proof -
  from assms obtain d where d: "PRD g = ''ATL'' @ d"
    by (auto simp: granule_tokens_def)
  from assms consider "SUB g = []" | "SUB g = ''processed_''"
    by (auto simp: granule_tokens_def)
  then show ?thesis
    by cases (simp_all add: granule_name_def d)
qed

lemma literal_Some: "literal p s = Some r \<Longrightarrow> s = p @ r"
  by (metis append_take_drop_id literal_def option.distinct(1) option.inject)

lemma literal_ATL_head: "literal ''ATL'' s = Some r \<Longrightarrow> \<exists>t. s = CHR ''A'' # t"
  by (drule literal_Some) simp

lemma match_granule_at_ATL:
  assumes "match_granule_at s = Some g'"
  shows "(\<exists>t. s = CHR ''A'' # t) \<or> (\<exists>t. s = ''processed_'' @ CHR ''A'' # t)"
proof (cases "literal ''processed_'' s")
  case None
  with assms obtain s1 where "literal ''ATL'' s = Some s1"
    by (auto simp: match_granule_at_def split: Option.bind_splits)
  then show ?thesis using literal_ATL_head by blast
next
  case (Some r)
  with assms obtain s1 where "literal ''ATL'' r = Some s1"
    by (auto simp: match_granule_at_def split: Option.bind_splits)
  then obtain t where "r = CHR ''A'' # t" using literal_ATL_head by blast
  with literal_Some [OF Some] show ?thesis by blast
qed

lemma match_granule_at_before:
  assumes g: "granule_tokens g"
    and ys: "ys \<noteq> []" "CHR ''A'' \<notin> set ys"
    and np: "SUB g = [] \<longrightarrow> ys \<noteq> ''processed_''"
  shows "match_granule_at (ys @ granule_name g c) = None"
proof (rule ccontr)
  assume "match_granule_at (ys @ granule_name g c) \<noteq> None"
  then obtain g' where "match_granule_at (ys @ granule_name g c) = Some g'" by blast
  from match_granule_at_ATL [OF this]
  consider t where "ys @ granule_name g c = CHR ''A'' # t"
    | t where "ys @ granule_name g c = ''processed_'' @ CHR ''A'' # t"
    by blast
  then show False
  proof cases
    case 1
    with ys show False by (cases ys) auto
  next
    case 2
    then obtain us where
      "(ys = ''processed_'' @ us \<and> us @ granule_name g c = CHR ''A'' # t)
       \<or> (ys @ us = ''processed_'' \<and> granule_name g c = us @ CHR ''A'' # t)"
      unfolding append_eq_append_conv2 by blast
    then consider
        (a) "ys = ''processed_'' @ us" "us @ granule_name g c = CHR ''A'' # t"
      | (b) "ys @ us = ''processed_''" "granule_name g c = us @ CHR ''A'' # t"
      by blast
    then show False
    proof cases
      case a
      show False
      proof (cases us)
        case Nil
        with a have y: "ys = ''processed_''" and n: "granule_name g c = CHR ''A'' # t" by simp_all
        from g consider "SUB g = []" | "SUB g = ''processed_''"
          by (auto simp: granule_tokens_def)
        then show False
        proof cases
          case 1
          with np y show False by simp
        next
          case 2
          with n show False by (simp add: granule_name_def)
        qed
      next
        case (Cons u us')
        with a have "u = CHR ''A''" "u \<in> set ys" by simp_all
        with ys show False by simp
      qed
    next
      case b
      show False
      proof (cases us)
        case Nil
        with b have y: "ys = ''processed_''" and n: "granule_name g c = CHR ''A'' # t" by simp_all
        from g consider "SUB g = []" | "SUB g = ''processed_''"
          by (auto simp: granule_tokens_def)
        then show False
        proof cases
          case 1
          with np y show False by simp
        next
          case 2
          with n show False by (simp add: granule_name_def)
        qed
      next
        case (Cons u us')
        obtain y ys' where yy: "ys = y # ys'" using ys by (cases ys) auto
        with b(1) have "ys' @ us = ''rocessed_''" by simp
        then have "set us \<subseteq> set ''rocessed_''"
          by (metis set_append Un_upper2)
        with Cons have u: "u \<in> set ''rocessed_''" by auto
        from granule_name_head [OF g, of c] b(2) Cons
        have "u = CHR ''A'' \<or> u = CHR ''p''" by auto
        with u show False by auto
      qed
    qed
  qed
qed

lemma rx_findall_path:
  assumes g: "granule_tokens g" and c: "c \<noteq> newline"
    and A: "CHR ''A'' \<notin> set dir"
    and np: "SUB g = [] \<longrightarrow> (\<forall>q. dir \<noteq> q @ ''processed_'')"
  shows "rx_findall (dir @ granule_name g c) = Some g"
  using A np
proof (induction dir)
  case Nil
  from rx_findall_name [OF g c] show ?case by simp
next
  case (Cons x dir)
  have "SUB g = [] \<longrightarrow> x # dir \<noteq> ''processed_''"
    using Cons.prems(2) by (metis append_Nil)
  with Cons.prems(1) have m: "match_granule_at ((x # dir) @ granule_name g c) = None"
    by (intro match_granule_at_before [OF g]) auto
  have "SUB g = [] \<longrightarrow> (\<forall>q. dir \<noteq> q @ ''processed_'')"
    using Cons.prems(2) by (metis append_Cons)
  with Cons.IH Cons.prems(1) have "rx_findall (dir @ granule_name g c) = Some g" by simp
  with m show ?case by simp
qed

lemma icebridge_name_of_run:
  assumes "compute_tides_icebridge_data svc arg M patterns files = (ev, Inr p)"
    and "input_subsetter_of arg = Inr (input_file, sub)"
    and "read_input (files input_file) sub = Inr (d, n, HEM)"
    and "getitem d ''time'' = Inr t"
  shows "\<exists>OIB tok1 tok2. patterns input_file = Some (OIB, tok1, tok2)
     \<and> icebridge_FILENAME HEM (str_of_model M) OIB tok1 tok2 t = Inr (o_FILENAME p)"
  using assms
  by (auto simp: compute_tides_icebridge_data_def
      split: option.splits sum.splits prod.splits if_splits)

lemma icebridge_FILENAME_least_time:
  assumes "np_min t1 = np_min t2"
  shows "icebridge_FILENAME HEM m OIB tok1 tok2 t1 = icebridge_FILENAME HEM m OIB tok1 tok2 t2"
  unfolding icebridge_FILENAME_def assms by (rule refl)

lemma ICESat2_name_of_run:
  assumes "compute_tides_ICESat2 svc INPUT_FILE TIDE_MODEL reader ua ux = (ev, Inr p)"
  shows "a_OUTPUT_FILE p = ICESat2_OUTPUT_FILE INPUT_FILE TIDE_MODEL"
  using assms
  by (auto simp: compute_tides_ICESat2_def split: sum.splits prod.splits)

text \<open>
  Claim C9. The name of the output of a run is a function of the name of the input and
  of the identifier of the model and, for the airborne product, of the hemisphere and
  of the least time of the track: two runs of a driver that agree on them write to the
  same name, whatever the library returns for the constituents and the tides, whatever
  else the files hold and whatever the memory held. For the repeat-track product the
  name follows the pattern of the granules when the name of the input is of their
  grammar, after a directory in which the pattern cannot start, and is the generic
  name built with \<^verbatim>\<open>os.path.splitext\<close> when the pattern matches nowhere.
\<close>

theorem output_name_is_a_function:
  "(compute_tides_ICESat2 svc INPUT_FILE TIDE_MODEL reader ua ux = (ev, Inr p)
      \<and> compute_tides_ICESat2 svc' INPUT_FILE TIDE_MODEL reader' ua' ux' = (ev', Inr p') \<longrightarrow>
      a_OUTPUT_FILE p = ICESat2_OUTPUT_FILE INPUT_FILE TIDE_MODEL
      \<and> a_OUTPUT_FILE p' = a_OUTPUT_FILE p)
   \<and> (input_subsetter_of arg = Inr (input_file, sub)
      \<and> read_input (files input_file) sub = Inr (d, n, HEM)
      \<and> read_input (files' input_file) sub = Inr (d', n', HEM)
      \<and> getitem d ''time'' = Inr t \<and> getitem d' ''time'' = Inr t' \<and> np_min t = np_min t'
      \<and> compute_tides_icebridge_data svc arg M patterns files = (e, Inr q)
      \<and> compute_tides_icebridge_data svc' arg M patterns files' = (e', Inr q') \<longrightarrow>
      o_FILENAME q' = o_FILENAME q)
   \<and> (granule_tokens g \<and> c \<noteq> newline \<and> CHR ''A'' \<notin> set dir
      \<and> (SUB g = [] \<longrightarrow> (\<forall>stem. dir \<noteq> stem @ ''processed_'')) \<longrightarrow>
      ICESat2_OUTPUT_FILE (dir @ granule_name g c) TIDE_MODEL =
        PRD g @ ''_'' @ str_of_model TIDE_MODEL @ ''_TIDES_'' @ TRK g @ GRAN g @ ''_''
          @ SCYC g @ ECYC g @ ''_'' @ RL g @ ''_'' @ VERS g @ AUX g @ ''.h5'')
   \<and> (rx_findall name = None \<longrightarrow>
      ICESat2_OUTPUT_FILE name TIDE_MODEL =
        fst (splitext name) @ ''_'' @ str_of_model TIDE_MODEL @ ''_TIDES''
          @ snd (splitext name))"
proof -
  have a: "a_OUTPUT_FILE p = ICESat2_OUTPUT_FILE INPUT_FILE TIDE_MODEL
      \<and> a_OUTPUT_FILE p' = a_OUTPUT_FILE p"
    if "compute_tides_ICESat2 svc INPUT_FILE TIDE_MODEL reader ua ux = (ev, Inr p)"
      "compute_tides_ICESat2 svc' INPUT_FILE TIDE_MODEL reader' ua' ux' = (ev', Inr p')"
    using ICESat2_name_of_run [OF that(1)] ICESat2_name_of_run [OF that(2)] by simp
  have b: "o_FILENAME q' = o_FILENAME q"
    if r: "input_subsetter_of arg = Inr (input_file, sub)"
      "read_input (files input_file) sub = Inr (d, n, HEM)"
      "read_input (files' input_file) sub = Inr (d', n', HEM)"
      "getitem d ''time'' = Inr t" "getitem d' ''time'' = Inr t'" "np_min t = np_min t'"
      "compute_tides_icebridge_data svc arg M patterns files = (e, Inr q)"
      "compute_tides_icebridge_data svc' arg M patterns files' = (e', Inr q')"
  proof -
    from icebridge_name_of_run [OF r(7) r(1) r(2) r(4)] obtain OIB tok1 tok2 where
      p: "patterns input_file = Some (OIB, tok1, tok2)"
      and n: "icebridge_FILENAME HEM (str_of_model M) OIB tok1 tok2 t = Inr (o_FILENAME q)"
      by blast
    from icebridge_name_of_run [OF r(8) r(1) r(3) r(5)] p
    have n': "icebridge_FILENAME HEM (str_of_model M) OIB tok1 tok2 t' = Inr (o_FILENAME q')"
      by simp
    from n n' icebridge_FILENAME_least_time [OF r(6), of HEM "str_of_model M" OIB tok1 tok2]
    show ?thesis by simp
  qed
  have c: "ICESat2_OUTPUT_FILE (dir @ granule_name g c) TIDE_MODEL =
        PRD g @ ''_'' @ str_of_model TIDE_MODEL @ ''_TIDES_'' @ TRK g @ GRAN g @ ''_''
          @ SCYC g @ ECYC g @ ''_'' @ RL g @ ''_'' @ VERS g @ AUX g @ ''.h5''"
    if "granule_tokens g" "c \<noteq> newline" "CHR ''A'' \<notin> set dir"
      "SUB g = [] \<longrightarrow> (\<forall>stem. dir \<noteq> stem @ ''processed_'')"
    using rx_findall_path [OF that] by (simp add: ICESat2_OUTPUT_FILE_def)
  have d: "ICESat2_OUTPUT_FILE name TIDE_MODEL =
        fst (splitext name) @ ''_'' @ str_of_model TIDE_MODEL @ ''_TIDES''
          @ snd (splitext name)"
    if "rx_findall name = None"
    using that by (simp add: ICESat2_OUTPUT_FILE_def split: prod.splits)
  from a b c d show ?thesis by blast
qed

theorem output_name_is_a_function_witness:
  "\<exists>ev p ev' p' e q e' q'.
      compute_tides_ICESat2 example_services ''/data/ATL11_000111_0306_002_01.h5''
          (Some ''CATS2008'') (\<lambda>f. Inr (Fl 0, [example_pair])) (\<lambda>i c. Fl 0) (\<lambda>i. Fl 0)
        = (ev, Inr p)
      \<and> compute_tides_ICESat2
          (example_services\<lparr>predict_tide_drift := \<lambda>t h d fmt. map (\<lambda>x. Fl 2) t\<rparr>)
          ''/data/ATL11_000111_0306_002_01.h5'' (Some ''CATS2008'')
          (\<lambda>f. Inr (Fl 5, [example_pair\<lparr>bp_latitude := [Fl 80, Fl 81]\<rparr>])) (\<lambda>i c. NaN) (\<lambda>i. NaN)
        = (ev', Inr p')
      \<and> a_tides p \<noteq> a_tides p'
      \<and> a_OUTPUT_FILE p = ''ATL11_CATS2008_TIDES_000111_0306_002_01.h5''
      \<and> a_OUTPUT_FILE p' = ''ATL11_CATS2008_TIDES_000111_0306_002_01.h5''
      \<and> compute_tides_icebridge_data example_services
          ''/data/ILATM2_20110321_123456_smooth_nadir3seg_50pt.csv[0,2]'' (Some ''CATS2008'')
          (\<lambda>f. Some (ATM, ''20110321'', ''123456''))
          (\<lambda>f. ATM_file [(''time'', [Fl 353851200, Fl 5, Fl 353851100]),
             (''lat'', [Fl 70, Fl 60, Fl 80]), (''lon'', [Fl 10, Fl 30, Fl 20])] 3)
        = (e, Inr q)
      \<and> compute_tides_icebridge_data
          (example_services\<lparr>predict_tide_drift := \<lambda>t h d fmt. map (\<lambda>x. Fl 2) t\<rparr>)
          ''/data/ILATM2_20110321_123456_smooth_nadir3seg_50pt.csv[0,2]'' (Some ''CATS2008'')
          (\<lambda>f. Some (ATM, ''20110321'', ''123456''))
          (\<lambda>f. ATM_file [(''time'', [Fl 353851100, Fl 7, Fl 353851300]),
             (''lat'', [Fl 60, Fl 62, Fl 61]), (''lon'', [Fl 10, Fl 30, Fl 20])] 3)
        = (e', Inr q')
      \<and> o_tide q \<noteq> o_tide q'
      \<and> o_FILENAME q = ''GR_NASA_CATS2008_TIDES_WGS84_ATM2011032143100.H5''
      \<and> o_FILENAME q' = ''GR_NASA_CATS2008_TIDES_WGS84_ATM2011032143100.H5''"
proof -
  let ?svc' = "example_services\<lparr>predict_tide_drift := \<lambda>t h d fmt. map (\<lambda>x. Fl 2) t\<rparr>"
  let ?F = "''/data/ATL11_000111_0306_002_01.h5''"
  let ?reader = "\<lambda>f :: string. Inr (Fl 0, [example_pair]) :: py_error + float64 \<times> atl11_pair list"
  let ?reader' = "\<lambda>f :: string. Inr (Fl 5, [example_pair\<lparr>bp_latitude := [Fl 80, Fl 81]\<rparr>])
      :: py_error + float64 \<times> atl11_pair list"
  let ?p = "\<lparr>a_OUTPUT_FILE = ''ATL11_CATS2008_TIDES_000111_0306_002_01.h5'',
      a_tides = [(([[Fl (21 / 2), Fl (41 / 2)], [Fl (23 / 2), Fl 888]],
                   [[False, False], [False, True]]), [Fl (25 / 2)], [False])],
      a_ranges = \<lparr>lnmn = Fl (- 45), lnmx = Fl (- 44), ltmn = Fl 70, ltmx = Fl 71,
                  tmn = Fl 10, tmx = Fl 20\<rparr>\<rparr>"
  let ?p' = "\<lparr>a_OUTPUT_FILE = ''ATL11_CATS2008_TIDES_000111_0306_002_01.h5'',
      a_tides = [(([[Fl 888, Fl 888], [Fl 888, Fl 888]],
                   [[True, True], [True, True]]), [Fl (5 / 2)], [False])],
      a_ranges = \<lparr>lnmn = Fl (- 45), lnmx = Fl (- 44), ltmn = Fl 80, ltmx = Fl 81,
                  tmn = Fl 10, tmx = Fl 20\<rparr>\<rparr>"
  let ?arg = "''/data/ILATM2_20110321_123456_smooth_nadir3seg_50pt.csv[0,2]''"
  let ?input_file = "''/data/ILATM2_20110321_123456_smooth_nadir3seg_50pt.csv''"
  let ?patterns = "\<lambda>f :: string. Some (ATM, ''20110321'', ''123456'')"
  let ?file = "ATM_file [(''time'', [Fl 353851200, Fl 5, Fl 353851100]),
      (''lat'', [Fl 70, Fl 60, Fl 80]), (''lon'', [Fl 10, Fl 30, Fl 20])] 3"
  let ?file' = "ATM_file [(''time'', [Fl 353851100, Fl 7, Fl 353851300]),
      (''lat'', [Fl 60, Fl 62, Fl 61]), (''lon'', [Fl 10, Fl 30, Fl 20])] 3"
  let ?d = "[(''time'', [Fl 353851200, Fl 353851100]), (''lat'', [Fl 70, Fl 80]),
      (''lon'', [Fl 10, Fl 20])]"
  let ?d' = "[(''time'', [Fl 353851100, Fl 353851300]), (''lat'', [Fl 60, Fl 61]),
      (''lon'', [Fl 10, Fl 20])]"
  let ?NAME = "''GR_NASA_CATS2008_TIDES_WGS84_ATM2011032143100.H5''"
  let ?q = "\<lparr>o_FILENAME = ?NAME, o_lat = [Fl 70, Fl 80], o_lon = [Fl 10, Fl 20],
      o_tide = [Fl (707702401 / 2), Fl (- 9999)], o_tide_mask = [False, True],
      o_geospatial = (Fl 70, Fl 80, Fl 10, Fl 20)\<rparr>"
  let ?q' = "\<lparr>o_FILENAME = ?NAME, o_lat = [Fl 60, Fl 61], o_lon = [Fl 10, Fl 20],
      o_tide = [Fl (5 / 2), Fl (5 / 2)], o_tide_mask = [False, False],
      o_geospatial = (Fl 60, Fl 61, Fl 10, Fl 20)\<rparr>"
  have r: "compute_tides_ICESat2 example_services ?F (Some ''CATS2008'') ?reader
      (\<lambda>i c. Fl 0) (\<lambda>i. Fl 0) = ([ReadInput ?F], Inr ?p)"
    by code_simp
  have r': "compute_tides_ICESat2 ?svc' ?F (Some ''CATS2008'') ?reader'
      (\<lambda>i c. NaN) (\<lambda>i. NaN) = ([ReadInput ?F], Inr ?p')"
    by code_simp
  have s: "input_subsetter_of ?arg = Inr (?input_file, Some [0, 2])"
    by code_simp
  have m: "select_model (Some ''CATS2008'') = Some (OTIS, ''tide_ocean'')"
    by code_simp
  have f: "read_input ?file (Some [0, 2]) = Inr (?d, 2, North)"
    unfolding read_input_def oib_file.case by code_simp
  have f': "read_input ?file' (Some [0, 2]) = Inr (?d', 2, North)"
    unfolding read_input_def oib_file.case by code_simp
  have g: "getitem ?d ''time'' = Inr [Fl 353851200, Fl 353851100]"
      "getitem ?d ''lon'' = Inr [Fl 10, Fl 20]" "getitem ?d ''lat'' = Inr [Fl 70, Fl 80]"
    by (simp_all add: getitem_def)
  have g': "getitem ?d' ''time'' = Inr [Fl 353851100, Fl 353851300]"
      "getitem ?d' ''lon'' = Inr [Fl 10, Fl 20]" "getitem ?d' ''lat'' = Inr [Fl 60, Fl 61]"
    by (simp_all add: getitem_def)
  have mn: "np_min [Fl 353851200, Fl 353851100] = np_min [Fl 353851100, Fl 353851300]"
    by code_simp
  have dt: "icebridge_date_tokens ATM ''20110321'' ''123456'' = Inr (''2011'', ''03'', ''21'')"
    by code_simp
  have nm: "icebridge_FILENAME North ''CATS2008'' ATM ''20110321'' ''123456''
      [Fl 353851200, Fl 353851100] = Inr ?NAME"
    by (simp add: icebridge_FILENAME_def dt float_eval decimal_eval format_eval fge_def
        fmin2_def isnan_def hem_flag_def str_of_oib_def Let_def)
  have nm': "icebridge_FILENAME North ''CATS2008'' ATM ''20110321'' ''123456''
      [Fl 353851100, Fl 353851300] = Inr ?NAME"
    using nm icebridge_FILENAME_least_time [OF mn] by simp
  have x: "extract_constants example_services [Fl 10, Fl 20] [Fl 70, Fl 80]
      = Inr ([(), ()], [[False], [True]])"
    by code_simp
  have x': "extract_constants example_services [Fl 10, Fl 20] [Fl 60, Fl 61]
      = Inr ([(), ()], [[False], [False]])"
    by code_simp
  have t: "icebridge_tide example_services OTIS 2 [Fl 353851200, Fl 353851100]
      [Fl 10, Fl 20] [Fl 70, Fl 80] = Inr ([Fl (707702401 / 2), Fl (- 9999)], [False, True])"
    by code_simp
  have t': "icebridge_tide ?svc' OTIS 2 [Fl 353851100, Fl 353851300]
      [Fl 10, Fl 20] [Fl 60, Fl 61] = Inr ([Fl (5 / 2), Fl (5 / 2)], [False, False])"
    by code_simp
  have b: "icebridge_geospatial [Fl 70, Fl 80] [Fl 10, Fl 20] = Inr (Fl 70, Fl 80, Fl 10, Fl 20)"
    by code_simp
  have b': "icebridge_geospatial [Fl 60, Fl 61] [Fl 10, Fl 20] = Inr (Fl 60, Fl 61, Fl 10, Fl 20)"
    by code_simp
  have i: "compute_tides_icebridge_data example_services ?arg (Some ''CATS2008'') ?patterns
      (\<lambda>f. ?file) = ([ReadInput ?input_file], Inr ?q)"
    by (simp add: compute_tides_icebridge_data_def s m dt f g x nm t b str_of_model_def)
  have i': "compute_tides_icebridge_data ?svc' ?arg (Some ''CATS2008'') ?patterns
      (\<lambda>f. ?file') = ([ReadInput ?input_file], Inr ?q')"
    by (simp add: compute_tides_icebridge_data_def s m dt f' g' x' nm' t' b' str_of_model_def)
  let ?g = "\<lparr>SUB = [], PRD = ''ATL11'', TRK = ''0001'', GRAN = ''11'', SCYC = ''03'',
       ECYC = ''06'', RL = ''002'', VERS = ''01'', AUX = []\<rparr>"
  have gt: "granule_tokens ?g \<and> CHR ''.'' \<noteq> newline \<and> CHR ''A'' \<notin> set ''/data/''"
    by (simp add: granule_tokens_def is_digit_def newline_def)
  have ns: "\<forall>stem. ''/data/'' \<noteq> stem @ ''processed_''"
  proof
    fix stem :: string
    have "length ''/data/'' < length (stem @ ''processed_'')" by simp
    then show "''/data/'' \<noteq> stem @ ''processed_''" by (metis less_irrefl)
  qed
  have gn: "''/data/'' @ granule_name ?g (CHR ''.'') = ?F"
    by (simp add: granule_name_def)
  note inst = output_name_is_a_function [where svc = example_services and svc' = ?svc'
      and INPUT_FILE = ?F and TIDE_MODEL = "Some ''CATS2008''" and reader = ?reader
      and reader' = ?reader' and ua = "\<lambda>i c. Fl 0" and ux = "\<lambda>i. Fl 0"
      and ua' = "\<lambda>i c. NaN" and ux' = "\<lambda>i. NaN" and ev = "[ReadInput ?F]"
      and ev' = "[ReadInput ?F]" and p = ?p and p' = ?p'
      and arg = ?arg and input_file = ?input_file and sub = "Some [0, 2]"
      and files = "\<lambda>f. ?file" and files' = "\<lambda>f. ?file'" and d = ?d and d' = ?d'
      and n = 2 and n' = 2 and HEM = North and t = "[Fl 353851200, Fl 353851100]"
      and t' = "[Fl 353851100, Fl 353851300]" and M = "Some ''CATS2008''"
      and patterns = ?patterns and e = "[ReadInput ?input_file]"
      and e' = "[ReadInput ?input_file]" and q = ?q and q' = ?q'
      and g = ?g and c = "CHR ''.''" and dir = "''/data/''"]
  from inst r r' have n1: "a_OUTPUT_FILE ?p = ICESat2_OUTPUT_FILE ?F (Some ''CATS2008'')"
      "a_OUTPUT_FILE ?p' = a_OUTPUT_FILE ?p"
    by blast+
  from inst gt ns have n2: "ICESat2_OUTPUT_FILE (''/data/'' @ granule_name ?g (CHR ''.''))
      (Some ''CATS2008'') = ''ATL11_CATS2008_TIDES_000111_0306_002_01.h5''"
    by (simp add: str_of_model_def)
  from inst s f f' g(1) g'(1) mn i i' have n3: "o_FILENAME ?q' = o_FILENAME ?q"
    by blast
  have "a_tides ?p \<noteq> a_tides ?p'" "o_tide ?q \<noteq> o_tide ?q'"
    by simp_all
  with r r' i i' n1 n2 n3 show ?thesis
    by (intro exI [of _ "[ReadInput ?F]"] exI [of _ ?p] exI [of _ ?p']
        exI [of _ "[ReadInput ?input_file]"] exI [of _ ?q] exI [of _ ?q']) (simp add: gn)
qed

section \<open>Columns of arrays\<close>

lemma shape2_length: "shape2 n k a \<Longrightarrow> length a = n"
  by (simp add: shape2_def)

lemma shape2_row: "shape2 n k a \<Longrightarrow> i < n \<Longrightarrow> length (a ! i) = k"
  by (simp add: shape2_def list_all_length)

lemma length_column: "length (column c a) = length a"
  by (simp add: column_def)

lemma nth_column: "i < length a \<Longrightarrow> column c a ! i = a ! i ! c"
  by (simp add: column_def)

lemma length_set_column: "length col = length a \<Longrightarrow> length (set_column c col a) = length a"
  by (simp add: set_column_def)

lemma nth_set_column:
  "length col = length a \<Longrightarrow> i < length a \<Longrightarrow> set_column c col a ! i = (a ! i)[c := col ! i]"
  by (simp add: set_column_def)

lemma shape2_set_column:
  assumes "shape2 n k a" and "length col = n"
  shows "shape2 n k (set_column c col a)"
  using assms
  by (auto simp: shape2_def list_all_length length_set_column nth_set_column)

lemma column_set_column_same:
  assumes "shape2 n k a" and "length col = n" and "c < k"
  shows "column c (set_column c col a) = col"
proof (rule nth_equalityI)
  show "length (column c (set_column c col a)) = length col"
    using assms by (simp add: length_column length_set_column shape2_length)
next
  fix i
  assume "i < length (column c (set_column c col a))"
  then have i: "i < n"
    using assms by (simp add: length_column length_set_column shape2_length)
  with assms show "column c (set_column c col a) ! i = col ! i"
    by (simp add: nth_column length_set_column nth_set_column shape2_length shape2_row)
qed

lemma column_set_column_other:
  assumes "length col = length a" and "c' \<noteq> c"
  shows "column c' (set_column c col a) = column c' a"
proof (rule nth_equalityI)
  show "length (column c' (set_column c col a)) = length (column c' a)"
    using assms by (simp add: length_column length_set_column)
next
  fix i
  assume "i < length (column c' (set_column c col a))"
  then have "i < length a"
    using assms by (simp add: length_column length_set_column)
  with assms show "column c' (set_column c col a) ! i = column c' a ! i"
    by (simp add: nth_column length_set_column nth_set_column)
qed

section \<open>Storing at the valid points\<close>

lemma length_scatter: "length (scatter xs idx vals) = length xs"
proof -
  have "length (fold (\<lambda>(i, v) ys. ys[i := v]) ps xs) = length xs" for ps :: "(nat \<times> 'a) list"
    by (induction ps arbitrary: xs) auto
  then show ?thesis by (simp add: scatter_def)
qed

lemma scatter_Nil: "scatter xs [] vals = xs"
  by (simp add: scatter_def)

lemma nonzero_none: "list_all (\<lambda>b. \<not> b) bs \<Longrightarrow> nonzero bs = []"
  by (auto simp: nonzero_def list_all_length filter_empty_conv)

lemma nonzero_all: "list_all (\<lambda>b. b) bs \<Longrightarrow> nonzero bs = [0..<length bs]"
  by (auto simp: nonzero_def list_all_length intro: filter_True)

lemma select_all: "select xs [0..<length xs] = xs"
  by (simp add: select_def map_nth)

lemma fold_update_upt:
  "length vals = n \<Longrightarrow> n \<le> length xs \<Longrightarrow>
   fold (\<lambda>(i, v) ys. ys[i := v]) (zip [0..<n] vals) xs = vals @ drop n xs"
proof (induction vals arbitrary: n xs rule: rev_induct)
  case Nil
  then show ?case by simp
next
  case (snoc v vals)
  then obtain m where m: "n = Suc m" "length vals = m" by (cases n) auto
  with snoc.prems have le: "m \<le> length xs" "m < length xs" by auto
  have "fold (\<lambda>(i, v) ys. ys[i := v]) (zip [0..<n] (vals @ [v])) xs
      = (vals @ drop m xs)[m := v]"
    using snoc.IH [OF m(2) le(1)] m(2) by (simp add: m(1))
  also have "\<dots> = vals @ (drop m xs)[0 := v]"
    using m by (simp add: list_update_append)
  also have "\<dots> = (vals @ [v]) @ drop (Suc m) xs"
    using Cons_nth_drop_Suc [OF le(2), symmetric] by simp
  finally show ?case by (simp add: m(1))
qed

lemma scatter_all: "length vals = length xs \<Longrightarrow> scatter xs [0..<length xs] vals = vals"
  using fold_update_upt [of vals "length xs" xs] by (simp add: scatter_def)


section \<open>The prediction at the valid points\<close>

lemma length_predict_valid:
  "predict_valid svc fmt tide_time hc deltat tmask data = Inr d \<Longrightarrow> length d = length data"
  by (auto simp: predict_valid_def Let_def length_scatter split: sum.splits)

lemma broadcast_to_exact: "length vs = n \<Longrightarrow> broadcast_to n vs = Inr vs"
  by (simp add: broadcast_to_def)

lemma length_select: "length (select xs idx) = length idx"
  by (simp add: select_def)

lemma predict_valid_returns:
  assumes "returns_one_value_per_time svc"
  shows "\<exists>d. predict_valid svc fmt tide_time hc deltat tmask data = Inr d"
proof -
  let ?valid = "nonzero (map Not tmask)"
  have p: "length (predict_tide_drift svc (select tide_time ?valid) (select hc ?valid)
      (select deltat ?valid) fmt) = length ?valid"
    and m: "length (infer_minor_corrections svc (select tide_time ?valid) (select hc ?valid)
      (select deltat ?valid) fmt) = length ?valid"
    using assms by (simp_all add: returns_one_value_per_time_def length_select)
  show ?thesis
    by (simp add: predict_valid_def Let_def broadcast_to_exact [OF p] broadcast_to_exact [OF m])
qed

lemma predict_valid_none:
  assumes "returns_one_value_per_time svc" and "list_all (\<lambda>b. b) tmask"
  shows "predict_valid svc fmt tide_time hc deltat tmask data = Inr data"
proof -
  from assms(2) have v: "nonzero (map Not tmask) = []"
    by (intro nonzero_none) (simp add: list_all_iff)
  have p: "length (predict_tide_drift svc [] [] [] fmt) = 0"
    and m: "length (infer_minor_corrections svc [] [] [] fmt) = 0"
    using assms(1) by (simp_all add: returns_one_value_per_time_def)
  show ?thesis
    using p m by (simp add: predict_valid_def v select_def scatter_Nil broadcast_to_def)
qed

lemma predict_valid_all:
  assumes "returns_one_value_per_time svc" and "list_all (\<lambda>b. \<not> b) tmask"
    and "length tmask = n" and "length tide_time = n" and "length hc = n" and "length deltat = n"
    and "length data = n"
  shows "predict_valid svc fmt tide_time hc deltat tmask data =
     Inr (map (\<lambda>(a, b). fadd a b)
            (zip (predict_tide_drift svc tide_time hc deltat fmt)
                 (infer_minor_corrections svc tide_time hc deltat fmt)))"
proof -
  from assms(2,3) have v: "nonzero (map Not tmask) = [0..<n]"
    using nonzero_all [of "map Not tmask"] by (simp add: list_all_iff)
  have s: "select tide_time [0..<n] = tide_time" "select hc [0..<n] = hc"
      "select deltat [0..<n] = deltat"
    using assms(4,5,6) select_all [of tide_time] select_all [of hc] select_all [of deltat]
    by simp_all
  let ?p = "predict_tide_drift svc tide_time hc deltat fmt"
  let ?m = "infer_minor_corrections svc tide_time hc deltat fmt"
  have p: "length ?p = n" and m: "length ?m = n"
    using assms(1,4) by (simp_all add: returns_one_value_per_time_def)
  have s1: "scatter data [0..<n] ?p = ?p"
    using scatter_all [of ?p data] p assms(7) by simp
  have s2: "select ?p [0..<n] = ?p"
    using select_all [of ?p] p by simp
  let ?sum = "map (\<lambda>(a, b). fadd a b) (zip ?p ?m)"
  have s3: "scatter ?p [0..<n] ?sum = ?sum"
    using scatter_all [of ?sum ?p] p m by simp
  show ?thesis
    unfolding predict_valid_def Let_def v s
    by (simp add: broadcast_to_exact p m s1 s2 s3)
qed

section \<open>The loop over the cycles\<close>

lemma at_cycle_returns:
  assumes "returns_one_value_per_time svc"
  shows "\<exists>st'. at_cycle svc fmt tide_time hc hc_any deltat c st = Inr st'"
proof -
  obtain data tmask where st: "st = (data, tmask)" by (cases st)
  let ?mcol = "map (\<lambda>(a, b). a \<or> b) (zip (column c tmask) hc_any)"
  from predict_valid_returns [OF assms] obtain d
    where "predict_valid svc fmt (column c tide_time) hc (column c deltat) ?mcol (column c data)
      = Inr d"
    by blast
  then show ?thesis
    by (simp add: at_cycle_def st)
qed

lemma fold_at_cycle_returns:
  assumes "returns_one_value_per_time svc"
  shows "\<exists>st'. fold_err (at_cycle svc fmt tide_time hc hc_any deltat) cs st = Inr st'"
proof (induction cs arbitrary: st)
  case Nil
  show ?case by simp
next
  case (Cons c cs)
  from at_cycle_returns [OF assms] obtain st1
    where "at_cycle svc fmt tide_time hc hc_any deltat c st = Inr st1"
    by blast
  with Cons [of st1] show ?case by simp
qed

lemma at_cycle_step:
  assumes "shape2 n k data" and "shape2 n k tmask" and "length hc_any = n" and "c < k"
    and "at_cycle svc fmt tide_time hc hc_any deltat c (data, tmask) = Inr (data', tmask')"
  shows "shape2 n k data'" and "shape2 n k tmask'"
    and "column c tmask' = map (\<lambda>(a, b). a \<or> b) (zip (column c tmask) hc_any)"
    and "predict_valid svc fmt (column c tide_time) hc (column c deltat) (column c tmask')
           (column c data) = Inr (column c data')"
    and "c' \<noteq> c \<Longrightarrow> column c' data' = column c' data"
    and "c' \<noteq> c \<Longrightarrow> column c' tmask' = column c' tmask"
proof -
  let ?mcol = "map (\<lambda>(a, b). a \<or> b) (zip (column c tmask) hc_any)"
  from assms(5) obtain dcol where
    d: "predict_valid svc fmt (column c tide_time) hc (column c deltat) ?mcol (column c data)
      = Inr dcol"
    and r: "data' = set_column c dcol data" "tmask' = set_column c ?mcol tmask"
    by (auto simp: at_cycle_def Let_def split: sum.splits)
  have lm: "length ?mcol = n"
    using assms(2,3) by (simp add: length_column shape2_length)
  have ld: "length dcol = n"
    using length_predict_valid [OF d] assms(1) by (simp add: length_column shape2_length)
  show "shape2 n k data'" "shape2 n k tmask'"
    using assms(1,2) lm ld by (simp_all add: r shape2_set_column)
  show m: "column c tmask' = ?mcol"
    using assms(2,4) lm by (simp add: r column_set_column_same)
  have "column c data' = dcol"
    using assms(1,4) ld by (simp add: r column_set_column_same)
  with d m show "predict_valid svc fmt (column c tide_time) hc (column c deltat)
      (column c tmask') (column c data) = Inr (column c data')"
    by simp
  show "column c' data' = column c' data" if "c' \<noteq> c"
    using that ld assms(1) by (simp add: r column_set_column_other shape2_length)
  show "column c' tmask' = column c' tmask" if "c' \<noteq> c"
    using that lm assms(2) by (simp add: r column_set_column_other shape2_length)
qed

lemma fold_at_cycle:
  assumes "shape2 n k data" and "shape2 n k tmask" and "length hc_any = n"
    and "distinct cs" and "list_all (\<lambda>c. c < k) cs"
    and "fold_err (at_cycle svc fmt tide_time hc hc_any deltat) cs (data, tmask)
           = Inr (data', tmask')"
  shows "shape2 n k data' \<and> shape2 n k tmask'
     \<and> (\<forall>c. c \<notin> set cs \<longrightarrow> column c data' = column c data \<and> column c tmask' = column c tmask)
     \<and> (\<forall>c. c \<in> set cs \<longrightarrow>
           column c tmask' = map (\<lambda>(a, b). a \<or> b) (zip (column c tmask) hc_any)
           \<and> predict_valid svc fmt (column c tide_time) hc (column c deltat) (column c tmask')
                (column c data) = Inr (column c data'))"
  using assms
proof (induction cs arbitrary: data tmask)
  case Nil
  then show ?case by simp
next
  case (Cons c cs)
  from Cons.prems(6) obtain d1 m1 where
    s1: "at_cycle svc fmt tide_time hc hc_any deltat c (data, tmask) = Inr (d1, m1)"
    and s2: "fold_err (at_cycle svc fmt tide_time hc hc_any deltat) cs (d1, m1) = Inr (data', tmask')"
    by (auto split: sum.splits)
  from Cons.prems(5) have ck: "c < k" and csk: "list_all (\<lambda>c. c < k) cs" by simp_all
  from Cons.prems(4) have nc: "c \<notin> set cs" and dc: "distinct cs" by simp_all
  note step = at_cycle_step [OF Cons.prems(1,2,3) ck s1]
  note ih = Cons.IH [OF step(1,2) Cons.prems(3) dc csk s2]
  from ih have sh: "shape2 n k data'" "shape2 n k tmask'" by simp_all
  have out: "column c' data' = column c' data \<and> column c' tmask' = column c' tmask"
    if "c' \<notin> set (c # cs)" for c'
  proof -
    from that have "c' \<noteq> c" "c' \<notin> set cs" by simp_all
    with ih step(5,6) [of c'] show ?thesis by simp
  qed
  have inn: "column c' tmask' = map (\<lambda>(a, b). a \<or> b) (zip (column c' tmask) hc_any)
      \<and> predict_valid svc fmt (column c' tide_time) hc (column c' deltat) (column c' tmask')
          (column c' data) = Inr (column c' data')"
    if "c' \<in> set (c # cs)" for c'
  proof (cases "c' = c")
    case True
    with nc ih have "column c' data' = column c' d1" "column c' tmask' = column c' m1" by simp_all
    with step(3,4) True show ?thesis by simp
  next
    case False
    with that have "c' \<in> set cs" by simp
    with ih have "column c' tmask' = map (\<lambda>(a, b). a \<or> b) (zip (column c' m1) hc_any)
      \<and> predict_valid svc fmt (column c' tide_time) hc (column c' deltat) (column c' tmask')
          (column c' d1) = Inr (column c' data')"
      by blast
    then show ?thesis
      unfolding step(5) [OF False] step(6) [OF False] by blast
  qed
  from sh out inn show ?case by blast
qed


section \<open>The along-track tides, column by column\<close>

lemma shape2_map_map: "shape2 n k a \<Longrightarrow> shape2 n k (map (map f) a)"
  by (simp add: shape2_def list_all_length)

lemma column_map_map:
  assumes "shape2 n k a" and "c < k"
  shows "column c (map (map f) a) = map f (column c a)"
  using assms by (auto simp: column_def shape2_def list_all_iff)

lemma shape2_uninit:
  "shape2 n k (map (\<lambda>i. map (\<lambda>c. uninit i c) [0..<k]) [0..<n])"
  by (simp add: shape2_def list_all_iff)

lemma column_uninit:
  "c < k \<Longrightarrow> column c (map (\<lambda>i. map (\<lambda>c. uninit i c) [0..<k]) [0..<n])
     = map (\<lambda>i. uninit i c) [0..<n]"
  by (simp add: column_def)

lemma length_fill_invalid:
  "length d = length m \<Longrightarrow> length (fst (fill_invalid fv d m)) = length d
     \<and> length (snd (fill_invalid fv d m)) = length d"
  by (simp add: fill_invalid_def)

lemma shape2_fill_invalid2:
  assumes "shape2 n k d" and "shape2 n k m"
  shows "shape2 n k (fst (fill_invalid2 fv d m))" and "shape2 n k (snd (fill_invalid2 fv d m))"
  using assms by (auto simp: shape2_def fill_invalid2_def fill_invalid_def list_all_length)

lemma column_fill_invalid2:
  assumes "shape2 n k d" and "shape2 n k m" and "c < k"
  shows "column c (fst (fill_invalid2 fv d m)) = fst (fill_invalid fv (column c d) (column c m))"
    and "column c (snd (fill_invalid2 fv d m)) = snd (fill_invalid fv (column c d) (column c m))"
proof -
  have l: "length d = n" "length m = n"
    using assms by (simp_all add: shape2_length)
  have r: "\<And>i. i < n \<Longrightarrow> c < length (d ! i) \<and> c < length (m ! i)"
    using assms by (simp add: shape2_row)
  show "column c (fst (fill_invalid2 fv d m)) = fst (fill_invalid fv (column c d) (column c m))"
    by (rule nth_equalityI)
      (use l r in \<open>auto simp: column_def fill_invalid2_def fill_invalid_def\<close>)
  show "column c (snd (fill_invalid2 fv d m)) = snd (fill_invalid fv (column c d) (column c m))"
    by (rule nth_equalityI)
      (use l r in \<open>auto simp: column_def fill_invalid2_def fill_invalid_def\<close>)
qed

lemma tide_AT_by_columns:
  assumes "shape2 n_points n_cycles delta_time"
    and "extract_constants svc longitude latitude = Inr (hc, hc_mask)"
    and "tide_AT svc fmt epoch n_points n_cycles delta_time delta_time_fill longitude latitude
           fv uninit = Inr (data, tmask)"
  shows "shape2 n_points n_cycles data" and "shape2 n_points n_cycles tmask"
    and "c < n_cycles \<Longrightarrow>
         tide_column svc fmt epoch delta_time_fill fv hc (any_axis1 hc_mask) (column c delta_time)
           (map (\<lambda>i. uninit i c) [0..<n_points]) = Inr (column c data, column c tmask)"
proof -
  let ?data0 = "map (\<lambda>i. map (\<lambda>c. uninit i c) [0..<n_cycles]) [0..<n_points]"
  let ?mask0 = "map (map (\<lambda>t. feq t delta_time_fill)) delta_time"
  let ?tt = "map (map (tide_time_of svc epoch)) delta_time"
  let ?dl = "map (map (deltat_of svc fmt)) ?tt"
  let ?any = "any_axis1 hc_mask"
  define F where "F = fold_err (at_cycle svc fmt ?tt hc ?any ?dl) [0..<n_cycles] (?data0, ?mask0)"
  have u: "(if length hc \<noteq> n_points \<or> length hc_mask \<noteq> n_points then Inl ValueError
      else (case F of Inl e \<Rightarrow> Inl e | Inr (d, m) \<Rightarrow> Inr (fill_invalid2 fv d m)))
      = Inr (data, tmask)"
    using assms(3) unfolding tide_AT_def Let_def assms(2) F_def by (simp only: sum.case prod.case)
  then have len: "length hc = n_points" "length hc_mask = n_points"
    by (auto split: if_splits)
  with u have "(case F of Inl e \<Rightarrow> Inl e | Inr (d, m) \<Rightarrow> Inr (fill_invalid2 fv d m))
      = Inr (data, tmask)"
    by simp
  then obtain d m where f': "F = Inr (d, m)" and r': "fill_invalid2 fv d m = (data, tmask)"
    by (auto split: sum.splits prod.splits)
  have f: "fold_err (at_cycle svc fmt ?tt hc ?any ?dl) [0..<n_cycles] (?data0, ?mask0) = Inr (d, m)"
    using f' by (simp only: F_def)
  have r: "data = fst (fill_invalid2 fv d m)" "tmask = snd (fill_invalid2 fv d m)"
    using r' by simp_all
  have sh: "shape2 n_points n_cycles ?data0" "shape2 n_points n_cycles ?mask0"
      "shape2 n_points n_cycles ?tt"
    using assms(1) by (simp_all add: shape2_uninit shape2_map_map)
  have la: "length ?any = n_points"
    using len by (simp add: any_axis1_def)
  have cs: "distinct [0..<n_cycles]" "list_all (\<lambda>c. c < n_cycles) [0..<n_cycles]"
    by (simp_all add: list_all_iff)
  note loop = fold_at_cycle [OF sh(1,2) la cs f]
  from loop have shd: "shape2 n_points n_cycles d" and shm: "shape2 n_points n_cycles m"
    by simp_all
  show "shape2 n_points n_cycles data" "shape2 n_points n_cycles tmask"
    using shd shm by (simp_all add: r shape2_fill_invalid2)
  show "tide_column svc fmt epoch delta_time_fill fv hc ?any (column c delta_time)
      (map (\<lambda>i. uninit i c) [0..<n_points]) = Inr (column c data, column c tmask)"
    if c: "c < n_cycles"
  proof -
    from c have "c \<in> set [0..<n_cycles]" by simp
    with loop have m: "column c m = map (\<lambda>(a, b). a \<or> b) (zip (column c ?mask0) ?any)"
      and p: "predict_valid svc fmt (column c ?tt) hc (column c ?dl) (column c m) (column c ?data0)
          = Inr (column c d)"
      by blast+
    have c1: "column c ?mask0 = map (\<lambda>t. feq t delta_time_fill) (column c delta_time)"
      and c2: "column c ?tt = map (tide_time_of svc epoch) (column c delta_time)"
      and c3: "column c ?dl = map (deltat_of svc fmt) (column c ?tt)"
      and c4: "column c ?data0 = map (\<lambda>i. uninit i c) [0..<n_points]"
      using assms(1) sh(3) c by (simp_all add: column_map_map column_uninit)
    have o: "column c data = fst (fill_invalid fv (column c d) (column c m))"
        "column c tmask = snd (fill_invalid fv (column c d) (column c m))"
      using shd shm c by (simp_all add: r column_fill_invalid2)
    show ?thesis
      using p unfolding tide_column_def Let_def m c1 c2 c3 c4 o
      by (simp add: c2 [symmetric])
  qed
qed


section \<open>Masked and valid columns\<close>

lemma fill_invalid_masked:
  assumes "list_all (\<lambda>b. b) m" and "length d = length m"
  shows "fill_invalid fv d m = (replicate (length m) fv, replicate (length m) True)"
proof -
  have "map (\<lambda>(v, k). if isnan v \<or> k then fv else v) (zip d m) = replicate (length m) fv"
    and "map (\<lambda>(v, k). isnan v \<or> k) (zip d m) = replicate (length m) True"
    using assms by (auto simp: list_all_length intro!: nth_equalityI)
  then show ?thesis by (simp add: fill_invalid_def)
qed

lemma fill_invalid_valid:
  assumes "list_all (\<lambda>b. \<not> b) m" and "list_all (\<lambda>v. \<not> isnan v) d" and "length d = length m"
  shows "fill_invalid fv d m = (d, replicate (length m) False)"
proof -
  have "map (\<lambda>(v, k). if isnan v \<or> k then fv else v) (zip d m) = d"
    and "map (\<lambda>(v, k). isnan v \<or> k) (zip d m) = replicate (length m) False"
    using assms by (auto simp: list_all_length intro!: nth_equalityI)
  then show ?thesis by (simp add: fill_invalid_def)
qed

lemma tide_column_masked:
  assumes "returns_one_value_per_time svc"
    and "list_all (\<lambda>t. feq t delta_time_fill) delta_time"
    and "length delta_time = n" and "length hc_any = n" and "length data0 = n"
  shows "tide_column svc fmt epoch delta_time_fill fv hc hc_any delta_time data0
     = Inr (replicate n fv, replicate n True)"
proof -
  let ?m = "map (\<lambda>(a, b). a \<or> b) (zip (map (\<lambda>t. feq t delta_time_fill) delta_time) hc_any)"
  have l: "length ?m = n" using assms(3,4) by simp
  have a: "list_all (\<lambda>b. b) ?m"
    using assms(2,3,4) by (auto simp: list_all_length)
  show ?thesis
    unfolding tide_column_def Let_def predict_valid_none [OF assms(1) a]
    using fill_invalid_masked [OF a, of data0 fv] l assms(5) by simp
qed

lemma tide_column_valid:
  assumes "returns_one_value_per_time svc"
    and "list_all (\<lambda>t. \<not> feq t delta_time_fill) delta_time"
    and "list_all (\<lambda>b. \<not> b) hc_any"
    and "length delta_time = n" and "length hc_any = n" and "length data0 = n" and "length hc = n"
    and "list_all (\<lambda>v. \<not> isnan v)
           (map (\<lambda>(a, b). fadd a b)
              (zip (predict_tide_drift svc (map (tide_time_of svc epoch) delta_time) hc
                      (map (deltat_of svc fmt) (map (tide_time_of svc epoch) delta_time)) fmt)
                   (infer_minor_corrections svc (map (tide_time_of svc epoch) delta_time) hc
                      (map (deltat_of svc fmt) (map (tide_time_of svc epoch) delta_time)) fmt)))"
  shows "tide_column svc fmt epoch delta_time_fill fv hc hc_any delta_time data0
     = Inr (map (\<lambda>(a, b). fadd a b)
              (zip (predict_tide_drift svc (map (tide_time_of svc epoch) delta_time) hc
                      (map (deltat_of svc fmt) (map (tide_time_of svc epoch) delta_time)) fmt)
                   (infer_minor_corrections svc (map (tide_time_of svc epoch) delta_time) hc
                      (map (deltat_of svc fmt) (map (tide_time_of svc epoch) delta_time)) fmt)),
            replicate n False)"
proof -
  let ?m = "map (\<lambda>(a, b). a \<or> b) (zip (map (\<lambda>t. feq t delta_time_fill) delta_time) hc_any)"
  let ?tt = "map (tide_time_of svc epoch) delta_time"
  let ?dl = "map (deltat_of svc fmt) ?tt"
  let ?sum = "map (\<lambda>(a, b). fadd a b)
      (zip (predict_tide_drift svc ?tt hc ?dl fmt) (infer_minor_corrections svc ?tt hc ?dl fmt))"
  have l: "length ?m = n" using assms(4,5) by simp
  have a: "list_all (\<lambda>b. \<not> b) ?m"
    using assms(2,3,4,5) by (auto simp: list_all_length)
  have lt: "length ?tt = n" "length ?dl = n" using assms(4) by simp_all
  have ls: "length ?sum = length ?m"
    using assms(1) lt l by (simp add: returns_one_value_per_time_def)
  have p: "predict_valid svc fmt ?tt hc ?dl ?m data0 = Inr ?sum"
    by (rule predict_valid_all [OF assms(1) a l lt(1) assms(7) lt(2) assms(6)])
  show ?thesis
    unfolding tide_column_def Let_def p
    using fill_invalid_valid [OF a assms(8) ls, of fv] l by simp
qed




lemma tide_AT_returns:
  assumes "extract_constants svc longitude latitude = Inr (hc, hc_mask)"
    and "length hc = n_points" and "length hc_mask = n_points"
    and "returns_one_value_per_time svc"
  shows "\<exists>data tmask. tide_AT svc fmt epoch n_points n_cycles delta_time delta_time_fill
      longitude latitude fv uninit = Inr (data, tmask)"
proof -
  let ?data0 = "map (\<lambda>i. map (\<lambda>c. uninit i c) [0..<n_cycles]) [0..<n_points]"
  let ?mask0 = "map (map (\<lambda>t. feq t delta_time_fill)) delta_time"
  let ?tt = "map (map (tide_time_of svc epoch)) delta_time"
  let ?dl = "map (map (deltat_of svc fmt)) ?tt"
  from fold_at_cycle_returns [OF assms(4)] obtain st where
    "fold_err (at_cycle svc fmt ?tt hc (any_axis1 hc_mask) ?dl) [0..<n_cycles] (?data0, ?mask0)
      = Inr st"
    by blast
  then show ?thesis
    unfolding tide_AT_def Let_def assms(1)
    by (cases st) (simp add: assms(2,3) del: fold_err.simps)
qed

text \<open>
  Claim C6. In the along-track tides of a beam pair, a cycle whose delta times all are
  the fill value holds the fill value throughout and is masked throughout; a cycle
  whose delta times all are valid, at reference points that the model covers and where
  the predicted values are numbers other than the fill value, holds the sum of the
  predicted tide and of the minor constituents, computed from the times of this cycle
  alone, and is nowhere masked. Every cycle of the output is the pipeline applied to
  the column of its own delta times: a run on other delta times that agree on a cycle
  returns the same values for this cycle.
\<close>

theorem cycles_are_predicted_independently:
  assumes "shape2 n_points n_cycles delta_time"
    and "extract_constants svc longitude latitude = Inr (hc, hc_mask)"
    and "length hc = n_points" and "length hc_mask = n_points"
    and "returns_one_value_per_time svc"
    and "c1 < n_cycles" and "c2 < n_cycles"
    and "list_all (\<lambda>t. feq t delta_time_fill) (column c1 delta_time)"
    and "list_all (\<lambda>t. \<not> feq t delta_time_fill) (column c2 delta_time)"
    and "list_all (\<lambda>b. \<not> b) (any_axis1 hc_mask)"
    and "tide_time = map (tide_time_of svc epoch) (column c2 delta_time)"
    and "deltat = map (deltat_of svc fmt) tide_time"
    and "computed = map (\<lambda>(a, b). fadd a b)
           (zip (predict_tide_drift svc tide_time hc deltat fmt)
                (infer_minor_corrections svc tide_time hc deltat fmt))"
    and "list_all (\<lambda>v. \<not> isnan v \<and> v \<noteq> fv) computed"
  shows "\<exists>data tmask.
      tide_AT svc fmt epoch n_points n_cycles delta_time delta_time_fill longitude latitude
        fv uninit = Inr (data, tmask)
      \<and> column c1 data = replicate n_points fv
      \<and> column c1 tmask = replicate n_points True
      \<and> column c2 data = computed
      \<and> list_all (\<lambda>v. v \<noteq> fv) (column c2 data)
      \<and> column c2 tmask = replicate n_points False
      \<and> (\<forall>c<n_cycles.
            tide_column svc fmt epoch delta_time_fill fv hc (any_axis1 hc_mask)
              (column c delta_time) (map (\<lambda>i. uninit i c) [0..<n_points])
            = Inr (column c data, column c tmask))
      \<and> (\<forall>delta_time' data' tmask'.
            shape2 n_points n_cycles delta_time'
            \<and> column c2 delta_time' = column c2 delta_time
            \<and> tide_AT svc fmt epoch n_points n_cycles delta_time' delta_time_fill longitude
                 latitude fv uninit = Inr (data', tmask')
            \<longrightarrow> column c2 data' = column c2 data \<and> column c2 tmask' = column c2 tmask)"
proof -
  from tide_AT_returns [OF assms(2,3,4,5)] obtain data tmask where
    run: "tide_AT svc fmt epoch n_points n_cycles delta_time delta_time_fill longitude latitude
        fv uninit = Inr (data, tmask)"
    by blast
  note cols = tide_AT_by_columns(3) [OF assms(1,2) run]
  have la: "length (any_axis1 hc_mask) = n_points"
    using assms(4) by (simp add: any_axis1_def)
  have lc: "\<And>c. length (column c delta_time) = n_points"
    using assms(1) by (simp add: length_column shape2_length)
  have lu: "\<And>c. length (map (\<lambda>i. uninit i c) [0..<n_points]) = n_points"
    by simp
  have k1: "column c1 data = replicate n_points fv \<and> column c1 tmask = replicate n_points True"
    using cols [OF assms(6)]
      tide_column_masked [OF assms(5,8) lc [of c1] la lu [of c1],
        where fmt = fmt and epoch = epoch and fv = fv and hc = hc]
    by simp
  have nn: "list_all (\<lambda>v. \<not> isnan v) computed"
    using assms(14) by (simp add: list_all_iff)
  have k2: "column c2 data = computed \<and> column c2 tmask = replicate n_points False"
    using cols [OF assms(7)]
      tide_column_valid [OF assms(5,9,10) lc [of c2] la lu [of c2] assms(3),
        where fmt = fmt and epoch = epoch and fv = fv]
      nn [unfolded assms(13) assms(12) assms(11)]
    by (simp add: assms(11,12,13))
  have k3: "list_all (\<lambda>v. v \<noteq> fv) (column c2 data)"
    using k2 assms(14) by (simp add: list_all_iff)
  have k4: "column c2 data' = column c2 data \<and> column c2 tmask' = column c2 tmask"
    if "shape2 n_points n_cycles delta_time'" "column c2 delta_time' = column c2 delta_time"
      "tide_AT svc fmt epoch n_points n_cycles delta_time' delta_time_fill longitude
                 latitude fv uninit = Inr (data', tmask')"
    for delta_time' data' tmask'
    using tide_AT_by_columns(3) [OF that(1) assms(2) that(3) assms(7)] cols [OF assms(7)]
    by (simp add: that(2))
  from run k1 k2 k3 k4 cols show ?thesis
    by blast
qed


lemmas example_eval = example_services_def returns_one_value_per_time_def shape2_def column_def
  any_axis1_def tide_time_of_def deltat_of_def fsub_def isnan_def

theorem cycles_are_predicted_independently_witness:
  "\<exists>data tmask.
      tide_AT example_services OTIS (Fl 0) 2 2 [[Fl 9, Fl 1], [Fl 9, Fl 2]] (Fl 9)
        [Fl 10, Fl 20] [Fl 70, Fl 71] (Fl 999) (\<lambda>i c. NaN) = Inr (data, tmask)
      \<and> column 0 data = [Fl 999, Fl 999] \<and> column 0 tmask = [True, True]
      \<and> column 1 data = [Fl (3 / 2), Fl (5 / 2)] \<and> column 1 tmask = [False, False]"
proof -
  let ?dt = "[[Fl 9, Fl 1], [Fl 9, Fl 2]]"
  let ?tt = "map (tide_time_of example_services (Fl 0)) (column 1 ?dt)"
  let ?dl = "map (deltat_of example_services OTIS) ?tt"
  let ?computed = "map (\<lambda>(a, b). fadd a b)
      (zip (predict_tide_drift example_services ?tt [(), ()] ?dl OTIS)
           (infer_minor_corrections example_services ?tt [(), ()] ?dl OTIS))"
  have a1: "shape2 2 2 ?dt" by (simp add: example_eval)
  have a2: "extract_constants example_services [Fl 10, Fl 20] [Fl 70, Fl 71]
      = Inr ([(), ()], [[False], [False]])"
    by (simp add: example_eval)
  have a3: "length [(), ()] = 2" "length [[False], [False]] = 2" by simp_all
  have a5: "returns_one_value_per_time example_services" by (simp add: example_eval)
  have a6: "(0 :: nat) < 2" "(1 :: nat) < 2" by simp_all
  have a8: "list_all (\<lambda>t. feq t (Fl 9)) (column 0 ?dt)" by (simp add: example_eval)
  have a9: "list_all (\<lambda>t. \<not> feq t (Fl 9)) (column 1 ?dt)" by (simp add: example_eval)
  have a10: "list_all (\<lambda>b. \<not> b) (any_axis1 [[False], [False]])" by (simp add: example_eval)
  have c: "?computed = [Fl (3 / 2), Fl (5 / 2)]" by (simp add: example_eval)
  have a14: "list_all (\<lambda>v. \<not> isnan v \<and> v \<noteq> Fl 999) ?computed"
    unfolding c by (simp add: isnan_def)
  from cycles_are_predicted_independently [OF a1 a2 a3 a5 a6 a8 a9 a10 refl refl refl a14,
      where uninit = "\<lambda>i c. NaN"]
  show ?thesis
    unfolding c by (simp only: replicate_Suc replicate_0 numeral_2_eq_2) blast
qed

section \<open>Sentinels and masks of the output\<close>













end
